theory Spec2Isabelle
  imports Complex_Main
begin

section \<open>Python values as the OVSDB IDL materialises them\<close>

text \<open>
  The IDL hands out column values of three shapes: an atom (a bool, an integer, a text
  string, a \<open>uuid.UUID\<close> or a referenced \<open>Row\<close>), a list of atoms (sets and optional
  columns) and a dict from atoms to atoms (maps). \<open>None\<close> only appears once
  \<open>condition_match\<close> has normalised an empty list. A UUID is modelled by its integer
  value. A \<open>Row\<close> carries its \<open>uuid\<close>, its column attributes in order, and the schema of
  its table (\<open>row._table.columns[col].type.is_optional()\<close> for every column).
  Floating-point atoms (OVSDB type \<open>real\<close>) are left out.
\<close>

type_synonym uuid = nat

datatype atom = ABool bool | AInt int | AStr string | AUuid uuid | ARow row
  and row = Row (row_uuid: uuid) (row_attrs: "(string \<times> pyval) list")
                (row_columns: "(string \<times> bool) list")
  and pyval = VNone | VAtom atom | VList "atom list" | VDict "(atom \<times> atom) list"

datatype error =
    ValueError string
  | TypeError
  | KeyError
  | AttributeError
  | IndexError
  | NotImplementedError
  | StopIteration
  | RowNotFound string string pyval
  | RuntimeError string
  | CommandError string

datatype pytype = TNone | TBool | TInt | TStr | TUuid | TRow | TList | TDict

fun atom_type :: "atom \<Rightarrow> pytype" where
  "atom_type (ABool _) = TBool"
| "atom_type (AInt _) = TInt"
| "atom_type (AStr _) = TStr"
| "atom_type (AUuid _) = TUuid"
| "atom_type (ARow _) = TRow"

text \<open>\<open>type(x)\<close>.\<close>

fun py_type :: "pyval \<Rightarrow> pytype" where
  "py_type VNone = TNone"
| "py_type (VAtom a) = atom_type a"
| "py_type (VList _) = TList"
| "py_type (VDict _) = TDict"

text \<open>\<open>isinstance(x, six.string_types)\<close>.\<close>

fun is_string :: "pyval \<Rightarrow> bool" where
  "is_string (VAtom (AStr _)) = True"
| "is_string _ = False"

text \<open>Truth value of an object, as \<open>all([match, val])\<close> tests it. A UUID and a Row
  define neither \<open>__bool__\<close> nor \<open>__len__\<close> and are always true.\<close>

fun truthy :: "pyval \<Rightarrow> bool" where
  "truthy VNone = False"
| "truthy (VAtom (ABool b)) = b"
| "truthy (VAtom (AInt i)) = (i \<noteq> 0)"
| "truthy (VAtom (AStr s)) = (s \<noteq> [])"
| "truthy (VAtom (AUuid _)) = True"
| "truthy (VAtom (ARow _)) = True"
| "truthy (VList xs) = (xs \<noteq> [])"
| "truthy (VDict d) = (d \<noteq> [])"

text \<open>Python's \<open>==\<close> on atoms: \<open>bool\<close> is a subclass of \<open>int\<close> (\<open>True == 1\<close>), two
  Rows are equal when their uuids are, and atoms of unrelated types are unequal.\<close>

fun atom_eq :: "atom \<Rightarrow> atom \<Rightarrow> bool" where
  "atom_eq (ABool a) (ABool b) = (a = b)"
| "atom_eq (ABool a) (AInt j) = ((if a then 1 else 0) = j)"
| "atom_eq (AInt i) (ABool b) = (i = (if b then 1 else 0))"
| "atom_eq (AInt i) (AInt j) = (i = j)"
| "atom_eq (AStr s) (AStr t) = (s = t)"
| "atom_eq (AUuid u) (AUuid v) = (u = v)"
| "atom_eq (ARow r) (ARow s) = (row_uuid r = row_uuid s)"
| "atom_eq _ _ = False"

text \<open>\<open>d[key]\<close> / \<open>key in d\<close> on a dict held as its items in insertion order.\<close>

fun dict_get :: "(atom \<times> atom) list \<Rightarrow> atom \<Rightarrow> atom option" where
  "dict_get [] key = None"
| "dict_get ((k, v) # d) key = (if atom_eq k key then Some v else dict_get d key)"

text \<open>Python's \<open>==\<close> on whole values.\<close>

fun py_eq :: "pyval \<Rightarrow> pyval \<Rightarrow> bool" where
  "py_eq VNone VNone = True"
| "py_eq (VAtom a) (VAtom b) = atom_eq a b"
| "py_eq (VList xs) (VList ys) = list_all2 atom_eq xs ys"
| "py_eq (VDict d) (VDict e) =
     (length d = length e \<and>
      list_all (\<lambda>(k, v). case dict_get e k of None \<Rightarrow> False | Some w \<Rightarrow> atom_eq v w) d)"
| "py_eq _ _ = False"

text \<open>\<open>k in s\<close> for two strings: \<open>k\<close> occurs in \<open>s\<close> as a substring.\<close>

definition is_substring :: "string \<Rightarrow> string \<Rightarrow> bool" where
  "is_substring k s = list_ex (\<lambda>i. take (length k) (drop i s) = k) [0..<Suc (length s)]"

text \<open>\<open>key in val\<close>. A dict tests its keys, a list its elements, a string its
  substrings (and refuses a key that is not a string); nothing else is iterable.\<close>

fun py_contains :: "atom \<Rightarrow> pyval \<Rightarrow> error + bool" where
  "py_contains key (VDict d) = Inr (dict_get d key \<noteq> None)"
| "py_contains key (VList xs) = Inr (list_ex (atom_eq key) xs)"
| "py_contains (AStr k) (VAtom (AStr s)) = Inr (is_substring k s)"
| "py_contains _ _ = Inl TypeError"

text \<open>\<open>val[key]\<close>. A list is indexed by an integer (negative indices count from the
  end), a string read with a non-integer key raises \<open>TypeError\<close>.\<close>

definition list_index :: "atom list \<Rightarrow> int \<Rightarrow> error + atom" where
  "list_index xs i =
     (if 0 \<le> i \<and> i < int (length xs) then Inr (xs ! nat i)
      else if i < 0 \<and> - int (length xs) \<le> i then Inr (xs ! nat (int (length xs) + i))
      else Inl IndexError)"

fun py_getitem :: "pyval \<Rightarrow> atom \<Rightarrow> error + atom" where
  "py_getitem (VDict d) key = (case dict_get d key of None \<Rightarrow> Inl KeyError | Some v \<Rightarrow> Inr v)"
| "py_getitem (VList xs) (AInt i) = list_index xs i"
| "py_getitem (VList xs) (ABool b) = list_index xs (if b then 1 else 0)"
| "py_getitem (VAtom (AStr s)) (AInt i) =
     (case list_index (map (\<lambda>c. AStr [c]) s) i of Inl e \<Rightarrow> Inl e | Inr c \<Rightarrow> Inr c)"
| "py_getitem (VAtom (AStr s)) (ABool b) =
     (case list_index (map (\<lambda>c. AStr [c]) s) (if b then 1 else 0) of Inl e \<Rightarrow> Inl e | Inr c \<Rightarrow> Inr c)"
| "py_getitem _ _ = Inl TypeError"

section \<open>idlutils: reading a column\<close>

text \<open>\<open>getattr(row, col)\<close>: the row's \<open>uuid\<close> attribute or one of its columns;
  \<open>Row.__getattr__\<close> raises \<open>AttributeError\<close> for a name that is no column.\<close>

definition py_getattr :: "row \<Rightarrow> string \<Rightarrow> error + pyval" where
  "py_getattr r name =
     (if name = ''uuid'' then Inr (VAtom (AUuid (row_uuid r)))
      else case map_of (row_attrs r) name of None \<Rightarrow> Inl AttributeError | Some v \<Rightarrow> Inr v)"

text \<open>\<open>row._table.columns[col].type.is_optional()\<close>.\<close>

definition is_optional :: "row \<Rightarrow> string \<Rightarrow> error + bool" where
  "is_optional r col =
     (case map_of (row_columns r) col of None \<Rightarrow> Inl KeyError | Some opt \<Rightarrow> Inr opt)"

text \<open>\<open>[v.uuid for v in val]\<close>: only a Row has the attribute.\<close>

fun uuids_of :: "atom list \<Rightarrow> error + atom list" where
  "uuids_of [] = Inr []"
| "uuids_of (ARow r # vs) =
     (case uuids_of vs of Inl e \<Rightarrow> Inl e | Inr us \<Rightarrow> Inr (AUuid (row_uuid r) # us))"
| "uuids_of (_ # vs) = Inl AttributeError"

text \<open>\<open>get_column_value(row, col)\<close> (idlutils.py, lines 148-167).\<close>

definition get_column_value :: "row \<Rightarrow> string \<Rightarrow> error + pyval" where
  "get_column_value r col =
     (case (if col = ''_uuid'' then Inr (VAtom (AUuid (row_uuid r))) else py_getattr r col) of
        Inl e \<Rightarrow> Inl e
      | Inr val \<Rightarrow>
          (case val of
             VList (v # vs) \<Rightarrow>
               (case (case v of ARow _ \<Rightarrow> uuids_of (v # vs) | _ \<Rightarrow> Inr (v # vs)) of
                  Inl e \<Rightarrow> Inl e
                | Inr val' \<Rightarrow>
                    (case is_optional r col of
                       Inl e \<Rightarrow> Inl e
                     | Inr opt \<Rightarrow> if opt then Inr (VAtom (hd val')) else Inr (VList val')))
           | _ \<Rightarrow> Inr val))"

section \<open>idlutils: condition matching\<close>

text \<open>The type check of lines 184-200: operand and value of one type, or both text, or
  one of them false on an optional column, where an empty list becomes \<open>None\<close>.\<close>

definition check_types :: "row \<Rightarrow> string \<Rightarrow> pyval \<Rightarrow> pyval \<Rightarrow> error + (pyval \<times> pyval)" where
  "check_types r col match val =
     (if py_type match \<noteq> py_type val \<and> \<not> (is_string match \<and> is_string val) then
        (if \<not> (truthy match \<and> truthy val) then
           (case is_optional r col of
              Inl e \<Rightarrow> Inl e
            | Inr opt \<Rightarrow>
                if opt then
                  (if py_eq match (VList []) then Inr (VNone, val)
                   else if py_eq val (VList []) then Inr (match, VNone)
                   else Inr (match, val))
                else Inl (ValueError ''Column type and condition operand do not match''))
         else Inl (ValueError ''Column type and condition operand do not match''))
      else Inr (match, val))"

text \<open>The loop \<open>for key in match\<close> of lines 207-217, over the keys still to visit.
  \<open>matched\<close> starts \<open>True\<close>; the first key that fails sets it \<open>False\<close> and breaks.\<close>

fun match_dict :: "string \<Rightarrow> (atom \<times> atom) list \<Rightarrow> pyval \<Rightarrow> atom list \<Rightarrow> error + bool" where
  "match_dict op m val [] = Inr True"
| "match_dict op m val (key # keys) =
     (if op = ''='' then
        (case py_contains key val of
           Inl e \<Rightarrow> Inl e
         | Inr present \<Rightarrow>
             if \<not> present then Inr False
             else (case py_getitem (VDict m) key of
                     Inl e \<Rightarrow> Inl e
                   | Inr mv \<Rightarrow>
                       (case py_getitem val key of
                          Inl e \<Rightarrow> Inl e
                        | Inr vv \<Rightarrow> if \<not> atom_eq mv vv then Inr False
                                    else match_dict op m val keys)))
      else if op = ''!='' then
        (case py_contains key val of
           Inl e \<Rightarrow> Inl e
         | Inr present \<Rightarrow>
             if \<not> present then Inr False
             else (case py_getitem (VDict m) key of
                     Inl e \<Rightarrow> Inl e
                   | Inr mv \<Rightarrow>
                       (case py_getitem val key of
                          Inl e \<Rightarrow> Inl e
                        | Inr vv \<Rightarrow> if atom_eq mv vv then Inr False
                                    else match_dict op m val keys)))
      else Inl NotImplementedError)"

text \<open>The loops \<open>for elem in set(match)\<close> of lines 225-228 and 232-235. The verdict is
  a conjunction over the elements, so the order and the duplicates that \<open>set\<close> removes
  do not change it. \<open>want\<close> is \<open>True\<close> for \<open>=\<close> (every element in the value) and \<open>False\<close>
  for \<open>!=\<close> (no element in the value).\<close>

fun match_elems :: "bool \<Rightarrow> atom list \<Rightarrow> pyval \<Rightarrow> error + bool" where
  "match_elems want [] val = Inr True"
| "match_elems want (elem # elems) val =
     (case py_contains elem val of
        Inl e \<Rightarrow> Inl e
      | Inr present \<Rightarrow> if present = want then match_elems want elems val else Inr False)"

text \<open>\<open>condition_match(row, condition)\<close> (idlutils.py, lines 170-247).\<close>

definition condition_match :: "row \<Rightarrow> string \<times> string \<times> pyval \<Rightarrow> error + bool" where
  "condition_match r condition =
     (case condition of (col, op, match0) \<Rightarrow>
       (case get_column_value r col of
          Inl e \<Rightarrow> Inl e
        | Inr val0 \<Rightarrow>
           (case check_types r col match0 val0 of
              Inl e \<Rightarrow> Inl e
            | Inr (match, val) \<Rightarrow>
               (case match of
                  VDict m \<Rightarrow> match_dict op m val (map fst m)
                | VList elems \<Rightarrow>
                    if op = ''='' then
                      (if \<not> (truthy val \<and> truthy match) then Inr (py_eq val match)
                       else match_elems True elems val)
                    else if op = ''!='' then
                      (if \<not> (truthy val \<and> truthy match) then Inr (\<not> py_eq val match)
                       else match_elems False elems val)
                    else Inl NotImplementedError
                | _ \<Rightarrow>
                    if op = ''='' then Inr (py_eq val match)
                    else if op = ''!='' then Inr (\<not> py_eq val match)
                    else Inl NotImplementedError))))"

text \<open>\<open>row_match(row, conditions)\<close>: \<open>all\<close> over a generator stops at the first
  condition that does not match, and an exception of a condition reached propagates.\<close>

fun row_match :: "row \<Rightarrow> (string \<times> string \<times> pyval) list \<Rightarrow> error + bool" where
  "row_match r [] = Inr True"
| "row_match r (cond # conds) =
     (case condition_match r cond of
        Inl e \<Rightarrow> Inl e
      | Inr b \<Rightarrow> if b then row_match r conds else Inr False)"

text \<open>An operand that is neither a list nor a dict: the last branch of
  \<open>condition_match\<close>.\<close>

definition is_scalar :: "pyval \<Rightarrow> bool" where
  "is_scalar v = (case v of VList _ \<Rightarrow> False | VDict _ \<Rightarrow> False | _ \<Rightarrow> True)"

text \<open>A Bridge row used as the concrete input of the examples: a text column, a map
  column and a set column, none of them optional.\<close>

definition bridge_row :: row where
  "bridge_row = Row 7
     [(''name'', VAtom (AStr ''br0'')),
      (''external_ids'', VDict [(AStr ''a'', AStr ''1''), (AStr ''b'', AStr ''3'')]),
      (''flood_vlans'', VList [AInt 1, AInt 3])]
     [(''name'', False), (''external_ids'', False), (''flood_vlans'', False)]"

section \<open>idlutils: record lookup\<close>

text \<open>\<open>idl_.tables\<close> maps a table name to a table; of a table the lookup reads
  \<open>rows\<close>, a dict from UUID to Row held in iteration order, and \<open>indexes\<close>, the column
  names of each index of the schema.\<close>

record idl_table =
  rows :: "(uuid \<times> row) list"
  indexes :: "string list list"

type_synonym idl = "(string \<times> idl_table) list"

datatype rowlookup =
  RowLookup (rl_table: "string option") (rl_column: "string option")
            (rl_uuid_column: "string option")

text \<open>\<open>_LOOKUP_TABLE\<close> (idlutils.py, lines 35-46).\<close>

definition LOOKUP_TABLE :: "(string \<times> rowlookup) list" where
  "LOOKUP_TABLE =
     [(''Controller'', RowLookup (Some ''Bridge'') (Some ''name'') (Some ''controller'')),
      (''Flow_Table'', RowLookup (Some ''Flow_Table'') (Some ''name'') None),
      (''IPFIX'', RowLookup (Some ''Bridge'') (Some ''name'') (Some ''ipfix'')),
      (''Mirror'', RowLookup (Some ''Mirror'') (Some ''name'') None),
      (''NetFlow'', RowLookup (Some ''Bridge'') (Some ''name'') (Some ''netflow'')),
      (''Open_vSwitch'', RowLookup (Some ''Open_vSwitch'') None None),
      (''QoS'', RowLookup (Some ''Port'') (Some ''name'') (Some ''qos'')),
      (''Queue'', RowLookup None None None),
      (''sFlow'', RowLookup (Some ''Bridge'') (Some ''name'') (Some ''sflow'')),
      (''SSL'', RowLookup (Some ''Open_vSwitch'') None (Some ''ssl''))]"

text \<open>The scan of \<open>row_by_value\<close>: the first row whose column equals \<open>match\<close>; reading
  the column of a row on the way may raise.\<close>

fun first_match :: "row list \<Rightarrow> string \<Rightarrow> pyval \<Rightarrow> error + row option" where
  "first_match [] column match = Inr None"
| "first_match (r # rs) column match =
     (case py_getattr r column of
        Inl e \<Rightarrow> Inl e
      | Inr v \<Rightarrow> if py_eq v match then Inr (Some r) else first_match rs column match)"

text \<open>\<open>row_by_value(idl_, table, column, match, default)\<close> (lines 55-63). The default
  is \<open>None\<close> for the sentinel \<open>_NO_DEFAULT\<close> and \<open>Some d\<close> for a default that was given.\<close>

definition row_by_value ::
    "idl \<Rightarrow> string \<Rightarrow> string \<Rightarrow> pyval \<Rightarrow> row option \<Rightarrow> error + row" where
  "row_by_value db table column match dflt =
     (case map_of db table of
        None \<Rightarrow> Inl KeyError
      | Some tab \<Rightarrow>
          (case first_match (map snd (rows tab)) column match of
             Inl e \<Rightarrow> Inl e
           | Inr (Some r) \<Rightarrow> Inr r
           | Inr None \<Rightarrow>
               (case dflt of
                  Some d \<Rightarrow> Inr d
                | None \<Rightarrow> Inl (RowNotFound table column match))))"

text \<open>\<open>get_index_column(table)\<close> (lines 255-259); falling off the end returns
  \<open>None\<close>.\<close>

definition get_index_column :: "idl_table \<Rightarrow> string option" where
  "get_index_column t =
     (case indexes t of
        [idx] \<Rightarrow> (case idx of [c] \<Rightarrow> Some c | _ \<Rightarrow> None)
      | _ \<Rightarrow> None)"

text \<open>How the \<open>try\<close> block of \<open>row_by_record\<close> (lines 68-86) ends: with a row returned,
  with an exception that leaves the function, or by falling through to the lookup
  table.\<close>

datatype direct = Found row | Raise error | Continue

text \<open>\<open>t.rows[u]\<close> under the handler \<open>except KeyError\<close>: a missing key is
  \<open>RowNotFound\<close> unless \<open>sys.platform\<close> is \<open>win32\<close>.\<close>

definition rows_getitem :: "string \<Rightarrow> idl_table \<Rightarrow> string \<Rightarrow> pyval \<Rightarrow> uuid \<Rightarrow> direct" where
  "rows_getitem platform t table record u =
     (case map_of (rows t) u of
        Some r \<Rightarrow> Found r
      | None \<Rightarrow>
          if platform \<noteq> ''win32'' then Raise (RowNotFound table ''uuid'' record)
          else Continue)"

text \<open>The \<open>try\<close> block. \<open>UUID\<close> stands for the constructor \<open>uuid.UUID\<close> of the standard
  library on a string: \<open>None\<close> where it raises \<open>ValueError\<close>. On an argument that is not a
  string the constructor fails on \<open>hex.replace\<close> (\<open>AttributeError\<close>), on \<open>None\<close> with
  \<open>TypeError\<close>; neither is caught.\<close>

definition try_uuid ::
    "(string \<Rightarrow> uuid option) \<Rightarrow> string \<Rightarrow> idl_table \<Rightarrow> string \<Rightarrow> pyval \<Rightarrow> direct" where
  "try_uuid UUID platform t table record =
     (case record of
        VAtom (AUuid u) \<Rightarrow> rows_getitem platform t table record u
      | VAtom (AStr s) \<Rightarrow>
          (case UUID s of
             None \<Rightarrow> Continue
           | Some u \<Rightarrow> rows_getitem platform t table record u)
      | VNone \<Rightarrow> Raise TypeError
      | _ \<Rightarrow> Raise AttributeError)"

text \<open>\<open>exc % arg\<close> for an exception instance \<open>exc\<close> and a string \<open>arg\<close>: exceptions
  define no \<open>__mod__\<close> and \<open>str.__rmod__\<close> declines a left operand that is not a string,
  so the operator raises \<open>TypeError\<close>.\<close>

definition exception_mod :: "error \<Rightarrow> string \<Rightarrow> error + error" where
  "exception_mod exc arg = Inl TypeError"

text \<open>\<open>len(x)\<close>.\<close>

fun py_len :: "pyval \<Rightarrow> error + nat" where
  "py_len (VList xs) = Inr (length xs)"
| "py_len (VDict d) = Inr (length d)"
| "py_len (VAtom (AStr s)) = Inr (length s)"
| "py_len _ = Inl TypeError"

text \<open>Lines 88-100 of \<open>row_by_record\<close>: the lookup by the table's strategy. In line 91
  the operator \<open>%\<close> is applied to the \<open>ValueError\<close> instance, not to its message, and is
  evaluated before \<open>raise\<close>. In line 93 the rows are those of \<open>t\<close>, the table that was
  asked for. The function returns an object: a Row \<open>r\<close> is \<open>ARow r\<close>.\<close>

definition by_strategy :: "idl \<Rightarrow> idl_table \<Rightarrow> string \<Rightarrow> pyval \<Rightarrow> error + atom" where
  "by_strategy db t table record =
     (let rl = (case map_of LOOKUP_TABLE table of
                  Some l \<Rightarrow> l
                | None \<Rightarrow> RowLookup (Some table) (get_index_column t) None)
      in case rl_table rl of
           None \<Rightarrow>
             (case exception_mod (ValueError ''Table %s can only be queried by UUID'') table of
                Inl e \<Rightarrow> Inl e
              | Inr exc \<Rightarrow> Inl exc)
         | Some target \<Rightarrow>
             (case rl_column rl of
                None \<Rightarrow>
                  (case rows t of
                     [] \<Rightarrow> Inl StopIteration
                   | (u, r) # _ \<Rightarrow> Inr (ARow r))
              | Some column \<Rightarrow>
                  (case row_by_value db target column record None of
                     Inl e \<Rightarrow> Inl e
                   | Inr found \<Rightarrow>
                       (case rl_uuid_column rl of
                          None \<Rightarrow> Inr (ARow found)
                        | Some uuid_column \<Rightarrow>
                            if uuid_column = [] then Inr (ARow found)
                            else
                              (case py_getattr found uuid_column of
                                 Inl e \<Rightarrow> Inl e
                               | Inr refs \<Rightarrow>
                                   (case py_len refs of
                                      Inl e \<Rightarrow> Inl e
                                    | Inr n \<Rightarrow>
                                        if n \<noteq> 1
                                        then Inl (RowNotFound table ''record'' record)
                                        else py_getitem refs (AInt 0)))))))"

text \<open>\<open>row_by_record(idl_, table, record)\<close> (lines 66-100). \<open>idl_.tables[table]\<close>
  stands before the \<open>try\<close>: an unknown table is a \<open>KeyError\<close> that nothing catches.\<close>

definition row_by_record ::
    "(string \<Rightarrow> uuid option) \<Rightarrow> string \<Rightarrow> idl \<Rightarrow> string \<Rightarrow> pyval \<Rightarrow> error + atom" where
  "row_by_record UUID platform db table record =
     (case map_of db table of
        None \<Rightarrow> Inl KeyError
      | Some t \<Rightarrow>
          (case try_uuid UUID platform t table record of
             Found r \<Rightarrow> Inr (ARow r)
           | Raise e \<Rightarrow> Inl e
           | Continue \<Rightarrow> by_strategy db t table record))"

text \<open>
  The constructor \<open>uuid.UUID(hex)\<close> of the standard library on a string, used where the
  examples need a concrete one:
  \<^verbatim>\<open>hex = hex.replace('urn:', '').replace('uuid:', '')\<close>,
  \<^verbatim>\<open>hex = hex.strip('{}').replace('-', '')\<close>, \<open>ValueError\<close> unless \<open>len(hex) == 32\<close>, then
  \<open>int(hex, 16)\<close>, and \<open>ValueError\<close> unless the integer is in \<open>0 .. 2^128 - 1\<close>. Strings are
  ASCII. \<open>remove_all sub 0 s\<close> is \<open>s.replace(sub, '')\<close> for a \<open>sub\<close> that is not empty (the
  counter is the number of characters of a match still to drop).
\<close>

fun remove_all :: "string \<Rightarrow> nat \<Rightarrow> string \<Rightarrow> string" where
  "remove_all sub k [] = []"
| "remove_all sub (Suc k) (c # cs) = remove_all sub k cs"
| "remove_all sub 0 (c # cs) =
     (if sub \<noteq> [] \<and> take (length sub) (c # cs) = sub then remove_all sub (length sub - 1) cs
      else c # remove_all sub 0 cs)"

definition is_brace :: "char \<Rightarrow> bool" where
  "is_brace c = (c = CHR ''{'' \<or> c = CHR ''}'')"

text \<open>\<open>s.strip('{}')\<close>.\<close>

definition strip_braces :: "string \<Rightarrow> string" where
  "strip_braces s = rev (dropWhile is_brace (rev (dropWhile is_brace s)))"

text \<open>The characters that \<open>int\<close> skips around a number.\<close>

definition is_space :: "char \<Rightarrow> bool" where
  "is_space c = (c \<in> set [CHR '' '', CHR 0x09, CHR 0x0A, CHR 0x0B, CHR 0x0C, CHR 0x0D,
                           CHR 0x1C, CHR 0x1D, CHR 0x1E, CHR 0x1F])"

definition hex_digit :: "char \<Rightarrow> nat option" where
  "hex_digit c = map_of
     [(CHR ''0'', 0), (CHR ''1'', 1), (CHR ''2'', 2), (CHR ''3'', 3), (CHR ''4'', 4),
      (CHR ''5'', 5), (CHR ''6'', 6), (CHR ''7'', 7), (CHR ''8'', 8), (CHR ''9'', 9),
      (CHR ''a'', 10), (CHR ''b'', 11), (CHR ''c'', 12), (CHR ''d'', 13), (CHR ''e'', 14),
      (CHR ''f'', 15), (CHR ''A'', 10), (CHR ''B'', 11), (CHR ''C'', 12), (CHR ''D'', 13),
      (CHR ''E'', 14), (CHR ''F'', 15)] c"

text \<open>The digits of a number: at least one digit, and single underscores between
  digits only. \<open>after_digit\<close> says that the character before was a digit.\<close>

fun hex_digits :: "nat \<Rightarrow> bool \<Rightarrow> string \<Rightarrow> nat option" where
  "hex_digits acc after_digit [] = (if after_digit then Some acc else None)"
| "hex_digits acc after_digit (c # cs) =
     (if c = CHR ''_'' then (if after_digit then hex_digits acc False cs else None)
      else case hex_digit c of
             None \<Rightarrow> None
           | Some d \<Rightarrow> hex_digits (16 * acc + d) True cs)"

text \<open>\<open>int(s, 16)\<close> (Python 3): blanks around the number, a sign, the prefix \<open>0x\<close> or
  \<open>0X\<close> (an underscore may follow it), then the digits; \<open>None\<close> for \<open>ValueError\<close>.\<close>

definition int16 :: "string \<Rightarrow> int option" where
  "int16 s =
     (let t = rev (dropWhile is_space (rev (dropWhile is_space s)));
          negative = (take 1 t = ''-'');
          u = (if take 1 t = ''-'' \<or> take 1 t = ''+'' then drop 1 t else t);
          v = (if take 2 u = ''0x'' \<or> take 2 u = ''0X''
               then (if take 1 (drop 2 u) = ''_'' then drop 3 u else drop 2 u)
               else u)
      in case hex_digits 0 False v of
           None \<Rightarrow> None
         | Some n \<Rightarrow> Some (if negative then - int n else int n))"

definition uuid_of_hex :: "string \<Rightarrow> uuid option" where
  "uuid_of_hex s =
     (let h = filter (\<lambda>c. c \<noteq> CHR ''-'')
                (strip_braces (remove_all ''uuid:'' 0 (remove_all ''urn:'' 0 s)))
      in if length h \<noteq> 32 then None
         else case int16 h of
                None \<Rightarrow> None
              | Some i \<Rightarrow> if 0 \<le> i \<and> i < 2 ^ 128 then Some (nat i) else None)"

text \<open>A small database for the examples: one Bridge, the Open_vSwitch singleton, one
  SSL row and one Queue.\<close>

definition ovs_row :: row where
  "ovs_row = Row 1 [(''ssl'', VList []), (''bridges'', VList [ARow bridge_row])]
                   [(''ssl'', True), (''bridges'', False)]"

definition ssl_row :: row where
  "ssl_row = Row 2 [(''private_key'', VAtom (AStr ''key.pem''))] [(''private_key'', False)]"

definition queue_row :: row where
  "queue_row = Row 3 [(''dscp'', VList [AInt 46])] [(''dscp'', True)]"

definition example_idl :: idl where
  "example_idl =
     [(''Bridge'', \<lparr>rows = [(7, bridge_row)], indexes = [[''name'']]\<rparr>),
      (''Open_vSwitch'', \<lparr>rows = [(1, ovs_row)], indexes = []\<rparr>),
      (''SSL'', \<lparr>rows = [(2, ssl_row)], indexes = []\<rparr>),
      (''Queue'', \<lparr>rows = [(3, queue_row)], indexes = []\<rparr>)]"

text \<open>The UUID an identifier stands for, if any: a \<open>uuid.UUID\<close> object is one, a string
  is one when the constructor accepts it.\<close>

definition parses_as_uuid :: "(string \<Rightarrow> uuid option) \<Rightarrow> pyval \<Rightarrow> uuid option" where
  "parses_as_uuid UUID record =
     (case record of VAtom (AUuid u) \<Rightarrow> Some u | VAtom (AStr s) \<Rightarrow> UUID s | _ \<Rightarrow> None)"

section \<open>transaction: the commit loop\<close>

text \<open>The statuses of \<open>ovs.db.idl.Transaction\<close>. \<open>commit_block\<close> reports one of them;
  \<open>do_commit\<close> names six and sends every other one through its last \<open>else\<close>.\<close>

datatype status =
  UNCOMMITTED | UNCHANGED | INCOMPLETE | ABORTED | SUCCESS | TRY_AGAIN | NOT_LOCKED | ERROR

text \<open>
  Modelled from the spec: the class \<open>api.Command\<close> is not among the sources. The spec
  describes a Command as carrying "a place to store its post-commit \<open>result\<close>" and two
  operations, "apply yourself against a live transaction handle" (\<open>run_idl\<close>) and
  "finalize after commit" (\<open>post_commit\<close>). A command is modelled by a name that never
  changes, its \<open>result\<close> attribute, and the two operations: each reads the number of the
  attempt and the current result, and either raises or leaves a new result.
\<close>

record command =
  cmd_name :: string
  result :: pyval
  cmd_run_idl :: "nat \<Rightarrow> pyval \<Rightarrow> error + pyval"
  cmd_post_commit :: "nat \<Rightarrow> pyval \<Rightarrow> error + pyval"

text \<open>What \<open>do_commit\<close> does to the outside, in order: the handles it opens, the calls
  it makes on a handle and on the IDL, and the lines it logs.\<close>

datatype event =
    Open_handle nat
  | Run_idl nat nat
  | Abort nat
  | Commit_block nat
  | Idl_run
  | Post_commit nat nat
  | Debug_running nat nat
  | Debug_try_again
  | Debug_aborted
  | Debug_unchanged
  | Debug_unknown status
  | Log_error string

text \<open>The outside of a transaction: the successive readings of \<open>time.time()\<close> (as real
  numbers), what the handle of the n-th attempt reports from \<open>commit_block()\<close> and
  \<open>get_error()\<close>, the number of clock readings taken so far, and the events so far.\<close>

record world =
  clock :: "nat \<Rightarrow> real"
  commit_block :: "nat \<Rightarrow> status"
  get_error :: "nat \<Rightarrow> string"
  reads :: nat
  trace :: "event list"

text \<open>The fields of \<open>Transaction\<close> that \<open>do_commit\<close> reads and writes.\<close>

record transaction =
  check_error :: bool
  log_errors :: bool
  commands :: "command list"
  timeout :: real
  start_time :: real

datatype outcome = Return "pyval list option" | Raised error

datatype step = Retry | Done outcome

definition emit :: "event list \<Rightarrow> world \<Rightarrow> world" where
  "emit es w = w\<lparr>trace := trace w @ es\<rparr>"

text \<open>\<open>time.time()\<close>: the next reading of the clock.\<close>

definition time_now :: "world \<Rightarrow> real \<times> world" where
  "time_now w = (clock w (reads w), w\<lparr>reads := Suc (reads w)\<rparr>)"

text \<open>\<open>elapsed_time\<close> and \<open>timeout_exceeded\<close> (transaction.py, lines 137-144).\<close>

definition elapsed_time :: "transaction \<Rightarrow> world \<Rightarrow> real \<times> world" where
  "elapsed_time self w = (case time_now w of (t, w') \<Rightarrow> (t - start_time self, w'))"

definition timeout_exceeded :: "transaction \<Rightarrow> world \<Rightarrow> bool \<times> world" where
  "timeout_exceeded self w = (case elapsed_time self w of (e, w') \<Rightarrow> (e > timeout self, w'))"

text \<open>The loop over the commands of lines 84-93, from index \<open>i\<close> on, in attempt \<open>n\<close>.
  A command that raises aborts the handle; with \<open>check_error\<close> the exception leaves
  \<open>do_commit\<close>, without it the loop goes on with the next command.\<close>

fun run_commands ::
    "bool \<Rightarrow> nat \<Rightarrow> nat \<Rightarrow> command list \<Rightarrow> world \<Rightarrow> error option \<times> command list \<times> world" where
  "run_commands ce n i [] w = (None, [], w)"
| "run_commands ce n i (c # cs) w =
     (case cmd_run_idl c n (result c) of
        Inr res \<Rightarrow>
          (case run_commands ce n (Suc i) cs (emit [Debug_running n i, Run_idl n i] w) of
             (e, cs', w') \<Rightarrow> (e, c\<lparr>result := res\<rparr> # cs', w'))
      | Inl exc \<Rightarrow>
          if ce then (Some exc, c # cs, emit [Debug_running n i, Run_idl n i, Abort n] w)
          else
            (case run_commands ce n (Suc i) cs
                    (emit [Debug_running n i, Run_idl n i, Abort n] w) of
               (e, cs', w') \<Rightarrow> (e, c # cs', w')))"

text \<open>\<open>Transaction.post_commit\<close> (lines 68-70), from index \<open>i\<close> on: every command's
  post-commit step in order; a step that raises ends the loop.\<close>

fun post_commit ::
    "nat \<Rightarrow> nat \<Rightarrow> command list \<Rightarrow> world \<Rightarrow> error option \<times> command list \<times> world" where
  "post_commit n i [] w = (None, [], w)"
| "post_commit n i (c # cs) w =
     (case cmd_post_commit c n (result c) of
        Inr res \<Rightarrow>
          (case post_commit n (Suc i) cs (emit [Post_commit n i] w) of
             (e, cs', w') \<Rightarrow> (e, c\<lparr>result := res\<rparr> # cs', w'))
      | Inl exc \<Rightarrow> (Some exc, c # cs, emit [Post_commit n i] w))"

definition not_locked_message :: string where
  "not_locked_message =
     ''The transaction failed because the IDL has been configured to require a database lock but didn't get it yet or has already lost it''"

text \<open>The message of lines 108-115.\<close>

definition error_message :: "world \<Rightarrow> nat \<Rightarrow> status \<Rightarrow> string" where
  "error_message w n st =
     ''OVSDB Error: '' @ (if st = NOT_LOCKED then not_locked_message else get_error w n)"

text \<open>Lines 96-135: what \<open>do_commit\<close> does with the status of attempt \<open>n\<close>.\<close>

definition on_status :: "transaction \<Rightarrow> world \<Rightarrow> nat \<Rightarrow> status \<Rightarrow> step \<times> transaction \<times> world" where
  "on_status self w n st =
     (if st = TRY_AGAIN then (Retry, self, emit [Debug_try_again, Idl_run] w)
      else if st = ERROR \<or> st = NOT_LOCKED then
        (let msg = error_message w n st;
             w1 = (if log_errors self then emit [Log_error msg] w else w)
         in if check_error self then (Done (Raised (RuntimeError msg)), self, w1)
            else (Done (Return None), self, w1))
      else if st = ABORTED then (Done (Return None), self, emit [Debug_aborted] w)
      else if st = UNCHANGED then
        (Done (Return (Some (map result (commands self)))), self, emit [Debug_unchanged] w)
      else if st = SUCCESS then
        (case post_commit n 0 (commands self) w of
           (Some exc, cs, w') \<Rightarrow> (Done (Raised exc), self\<lparr>commands := cs\<rparr>, w')
         | (None, cs, w') \<Rightarrow>
             (Done (Return (Some (map result cs))), self\<lparr>commands := cs\<rparr>, w'))
      else (Done (Return (Some (map result (commands self)))), self, emit [Debug_unknown st] w))"

text \<open>Lines 78-135: one pass of the loop body after the deadline check, as attempt
  \<open>n\<close>. \<open>pre_commit\<close> does nothing.\<close>

definition attempt :: "transaction \<Rightarrow> world \<Rightarrow> nat \<Rightarrow> step \<times> transaction \<times> world" where
  "attempt self w n =
     (case run_commands (check_error self) n 0 (commands self) (emit [Open_handle n] w) of
        (Some exc, cs, w') \<Rightarrow> (Done (Raised exc), self\<lparr>commands := cs\<rparr>, w')
      | (None, cs, w') \<Rightarrow>
          on_status (self\<lparr>commands := cs\<rparr>) (emit [Commit_block n] w') n (commit_block w' n))"

text \<open>The \<open>while True\<close> loop of lines 75-135 with \<open>attempts\<close> passes behind it. The loop
  has no bound of its own: the model runs at most \<open>fuel\<close> passes and is \<open>None\<close> when they
  do not suffice. \<open>timeout_exceeded\<close> reads the clock only when \<open>attempts > 0\<close>.\<close>

fun do_commit_loop ::
    "nat \<Rightarrow> transaction \<Rightarrow> world \<Rightarrow> nat \<Rightarrow> (outcome \<times> transaction \<times> world) option" where
  "do_commit_loop 0 self w attempts = None"
| "do_commit_loop (Suc fuel) self w attempts =
     (if attempts > 0 \<and> fst (timeout_exceeded self w) then
        Some (Raised (RuntimeError ''OVS transaction timed out''), self, snd (timeout_exceeded self w))
      else
        (case attempt self (if attempts > 0 then snd (timeout_exceeded self w) else w)
                (Suc attempts) of
           (Retry, self', w') \<Rightarrow> do_commit_loop fuel self' w' (Suc attempts)
         | (Done out, self', w') \<Rightarrow> Some (out, self', w')))"

text \<open>\<open>Transaction.do_commit\<close> (lines 72-135).\<close>

definition do_commit :: "nat \<Rightarrow> transaction \<Rightarrow> world \<Rightarrow> (outcome \<times> transaction \<times> world) option" where
  "do_commit fuel self w =
     (case time_now w of (t, w') \<Rightarrow> do_commit_loop fuel (self\<lparr>start_time := t\<rparr>) w' 0)"

text \<open>Two commands, a transaction and a handle for the examples: \<open>add_port\<close> learns its
  UUID in the post-commit step, \<open>list_ports\<close> keeps what it read. The clock reads 100,
  104, 108, ...; the transaction started at 100 and has a timeout of 10. \<open>ran\<close> and
  \<open>committed\<close> are the two commands after \<open>run_idl\<close> and after \<open>post_commit\<close>, and
  \<open>ran_events\<close> what attempt 1 does up to \<open>commit_block\<close>.\<close>

definition add_port :: command where
  "add_port = \<lparr>cmd_name = ''add_port'', result = VNone,
      cmd_run_idl = (\<lambda>n res. Inr (VAtom (AStr ''staged''))),
      cmd_post_commit = (\<lambda>n res. Inr (VAtom (AUuid 42)))\<rparr>"

definition list_ports :: command where
  "list_ports = \<lparr>cmd_name = ''list_ports'', result = VNone,
      cmd_run_idl = (\<lambda>n res. Inr (VList [AStr ''p1''])),
      cmd_post_commit = (\<lambda>n res. Inr res)\<rparr>"

definition example_txn :: "bool \<Rightarrow> bool \<Rightarrow> transaction" where
  "example_txn ce le = \<lparr>check_error = ce, log_errors = le, commands = [add_port, list_ports],
      timeout = 10, start_time = 100\<rparr>"

definition example_world :: "(nat \<Rightarrow> status) \<Rightarrow> nat \<Rightarrow> world" where
  "example_world sts k = \<lparr>clock = (\<lambda>k. 100 + 4 * real k), commit_block = sts,
      get_error = (\<lambda>n. ''constraint violation''), reads = k, trace = []\<rparr>"

definition ran :: "command list" where
  "ran = [add_port\<lparr>result := VAtom (AStr ''staged'')\<rparr>, list_ports\<lparr>result := VList [AStr ''p1'']\<rparr>]"


definition ran_events :: "event list" where
  "ran_events = [Open_handle 1, Debug_running 1 0, Run_idl 1 0, Debug_running 1 1, Run_idl 1 1]"

section \<open>idlutils: replacing Commands by their results\<close>

text \<open>
  \<open>db_replace_record\<close> changes a dict or a list in place and builds a new tuple, so its
  model keeps the objects in a store: every Python value is the address of an object, and
  a container holds the addresses of its entries. \<open>next_addr\<close> is the address that the
  next new object gets.
\<close>

type_synonym addr = nat

text \<open>\<open>type(obj)\<close> of a tuple: \<open>tuple\<close> itself, or a class made by
  \<open>collections.namedtuple\<close> (without field defaults), whose constructor takes one
  argument for each field.\<close>

datatype tuple_type = PlainTuple | NamedTuple

text \<open>
  Modelled from the spec: the class \<open>api.Command\<close> is not among the sources; of a Command
  the function reads only the \<open>result\<close> attribute, "a place to store its post-commit
  \<open>result\<close>". \<open>OCommand r\<close> is a Command whose \<open>result\<close> is the object at \<open>r\<close>, and
  \<open>OResult r\<close> an object that is no Command and has an attribute \<open>result\<close> all the same.
  \<open>ODict\<close> is a mutable mapping (its items in order), \<open>OFrozenMapping\<close> a mapping that
  refuses item assignment, \<open>OList\<close> a mutable sequence, \<open>OTuple\<close> a tuple of either type,
  \<open>OStr\<close> a string, and \<open>OOther\<close> any object that is none of these (a generator is one).
\<close>

datatype pyobj =
    OCommand addr
  | OResult addr
  | ODict "(addr \<times> addr) list"
  | OFrozenMapping "(addr \<times> addr) list"
  | OList "addr list"
  | OTuple tuple_type "addr list"
  | OStr string
  | OOther

record heap =
  store :: "addr \<Rightarrow> pyobj"
  next_addr :: addr

text \<open>\<open>isinstance(v, api.Command)\<close>.\<close>

definition is_command :: "heap \<Rightarrow> addr \<Rightarrow> bool" where
  "is_command h v = (case store h v of OCommand _ \<Rightarrow> True | _ \<Rightarrow> False)"












section \<open>Condition matching: properties\<close>

lemma atom_eq_refl: "atom_eq a a"
  by (cases a) simp_all

lemma dict_get_key: "k \<in> fst ` set m \<Longrightarrow> dict_get m k \<noteq> None"
  by (induction m) (force simp: atom_eq_refl)+

lemma check_types_same:
  "py_type match = py_type val \<or> (is_string match \<and> is_string val) \<Longrightarrow>
   check_types r col match val = Inr (match, val)"
  by (auto simp: check_types_def)

lemma bridge_row_external_ids:
  "get_column_value bridge_row ''external_ids'' =
     Inr (VDict [(AStr ''a'', AStr ''1''), (AStr ''b'', AStr ''3'')])"
  by (simp add: bridge_row_def get_column_value_def py_getattr_def)

lemma bridge_row_name: "get_column_value bridge_row ''name'' = Inr (VAtom (AStr ''br0''))"
  by (simp add: bridge_row_def get_column_value_def py_getattr_def)

subsection \<open>Map operand and \<open>!=\<close>\<close>

lemma match_dict_ne:
  "\<forall>k\<in>set keys. dict_get m k \<noteq> None \<Longrightarrow>
   match_dict ''!='' m (VDict d) keys =
     Inr (\<forall>k\<in>set keys. \<exists>mv vv. dict_get m k = Some mv \<and> dict_get d k = Some vv \<and>
                                  \<not> atom_eq mv vv)"
proof (induction keys)
  case Nil
  show ?case by simp
next
  case (Cons key keys)
  then obtain mv where mv: "dict_get m key = Some mv" by auto
  from Cons have IH: "match_dict ''!='' m (VDict d) keys =
     Inr (\<forall>k\<in>set keys. \<exists>mv vv. dict_get m k = Some mv \<and> dict_get d k = Some vv \<and>
                                  \<not> atom_eq mv vv)"
    by simp
  show ?case
  proof (cases "dict_get d key")
    case None
    then show ?thesis by simp
  next
    case (Some vv)
    then show ?thesis using mv IH by auto
  qed
qed

text \<open>
  Claim C1, as amended. For a row whose column value is a map \<open>d\<close> and a map operand
  \<open>m\<close>, \<open>condition_match\<close> with \<open>!=\<close> matches exactly when every key of the operand
  exists in the value and is mapped there to a different value. One operand key that is
  missing from the value, or mapped to an equal value, is enough for no match.
\<close>

theorem condition_match_ne_map:
  assumes "get_column_value r col = Inr (VDict d)"
  shows "condition_match r (col, ''!='', VDict m) =
     Inr (\<forall>k\<in>fst ` set m. \<exists>mv vv. dict_get m k = Some mv \<and> dict_get d k = Some vv \<and>
                                    \<not> atom_eq mv vv)"
  using assms match_dict_ne[of "map fst m" m d] dict_get_key[of _ m]
  by (simp add: condition_match_def check_types_same)

text \<open>The amended C1 at a concrete row: both operand keys are present with other
  values, and the condition matches.\<close>

theorem condition_match_ne_map_witness:
  "get_column_value bridge_row ''external_ids'' =
     Inr (VDict [(AStr ''a'', AStr ''1''), (AStr ''b'', AStr ''3'')]) \<and>
   condition_match bridge_row
     (''external_ids'', ''!='', VDict [(AStr ''a'', AStr ''2''), (AStr ''b'', AStr ''4'')]) = Inr True"
  using bridge_row_external_ids
    condition_match_ne_map [OF bridge_row_external_ids,
      of "[(AStr ''a'', AStr ''2''), (AStr ''b'', AStr ''4'')]"]
  by simp

text \<open>
  C1 as stated fails. The value is \<open>{a: 1, b: 3}\<close>. With the operand \<open>{a: 1, b: 2}\<close> the
  key \<open>b\<close> is mapped to a different value, and with the operand \<open>{c: 1}\<close> the key \<open>c\<close> is
  missing from the value; the claim promises a match for both, the code answers no match.
\<close>

theorem condition_match_ne_map_counterexample:
  "get_column_value bridge_row ''external_ids'' =
     Inr (VDict [(AStr ''a'', AStr ''1''), (AStr ''b'', AStr ''3'')]) \<and>
   dict_get [(AStr ''a'', AStr ''1''), (AStr ''b'', AStr ''3'')] (AStr ''b'') = Some (AStr ''3'') \<and>
   dict_get [(AStr ''a'', AStr ''1''), (AStr ''b'', AStr ''2'')] (AStr ''b'') = Some (AStr ''2'') \<and>
   \<not> atom_eq (AStr ''2'') (AStr ''3'') \<and>
   condition_match bridge_row
     (''external_ids'', ''!='', VDict [(AStr ''a'', AStr ''1''), (AStr ''b'', AStr ''2'')]) = Inr False \<and>
   dict_get [(AStr ''a'', AStr ''1''), (AStr ''b'', AStr ''3'')] (AStr ''c'') = None \<and>
   condition_match bridge_row (''external_ids'', ''!='', VDict [(AStr ''c'', AStr ''1'')]) = Inr False"
  by (simp add: bridge_row_def condition_match_def get_column_value_def py_getattr_def
      check_types_def)

subsection \<open>Unsupported operators\<close>

text \<open>With an operator other than \<open>=\<close> and \<open>!=\<close>, an operand that passed the type check
  and is not the empty dict raises \<open>NotImplementedError\<close>: a scalar, a list (empty or
  not) and a dict with a key.\<close>

lemma unsupported_operator:
  assumes "op \<noteq> ''=''" and "op \<noteq> ''!=''"
    and "get_column_value r col = Inr val0"
    and "check_types r col match0 val0 = Inr (match, val)"
    and "match \<noteq> VDict []"
  shows "condition_match r (col, op, match0) = Inl NotImplementedError"
  using assms
  by (cases match; cases "case match of VDict m \<Rightarrow> m | _ \<Rightarrow> []")
     (auto simp: condition_match_def)

text \<open>
  Claim C3 at the input where the code departs from it: the operator \<open><\<close> with an empty
  map operand on a map column. The check of the operator stands inside the loop over the
  operand's keys, the loop body never runs, and \<open>condition_match\<close> returns \<open>True\<close>
  instead of raising \<open>NotImplementedError\<close>.
\<close>

theorem condition_match_unsupported_empty_map:
  "condition_match bridge_row (''external_ids'', ''<'', VDict []) = Inr True"
  by (simp add: bridge_row_def condition_match_def get_column_value_def py_getattr_def
      check_types_def)

subsection \<open>\<open>=\<close> against \<open>!=\<close>\<close>

lemma match_elems_both:
  "elems \<noteq> [] \<Longrightarrow>
   \<not> (match_elems True elems val = Inr True \<and> match_elems False elems val = Inr True)"
  by (cases elems) (auto split: sum.splits)

lemma match_dict_both:
  "keys \<noteq> [] \<Longrightarrow>
   \<not> (match_dict ''='' m val keys = Inr True \<and> match_dict ''!='' m val keys = Inr True)"
  by (cases keys) (auto split: sum.splits)

text \<open>
  Claim C7, as amended. For an operand of the value's type (or both text): when the
  operand is a scalar (neither a list nor a dict), \<open>=\<close> and \<open>!=\<close> are complements, exactly
  one of them matches; for every operand but the empty dict, a list or a dict included,
  the two never match together (both may fail to match).
\<close>

theorem condition_match_eq_ne:
  assumes "get_column_value r col = Inr val"
    and "py_type match = py_type val \<or> (is_string match \<and> is_string val)"
  shows "(is_scalar match \<longrightarrow>
            (\<exists>b. condition_match r (col, ''='', match) = Inr b \<and>
                 condition_match r (col, ''!='', match) = Inr (\<not> b))) \<and>
         (match \<noteq> VDict [] \<longrightarrow>
            \<not> (condition_match r (col, ''='', match) = Inr True \<and>
               condition_match r (col, ''!='', match) = Inr True))"
proof (cases match)
  case VNone
  then show ?thesis using assms by (simp add: condition_match_def check_types_same is_scalar_def)
next
  case (VAtom a)
  then show ?thesis using assms by (simp add: condition_match_def check_types_same is_scalar_def)
next
  case (VList elems)
  then show ?thesis using assms match_elems_both[of elems val]
    by (auto simp: condition_match_def check_types_same is_scalar_def)
next
  case (VDict m)
  then show ?thesis using assms match_dict_both[of "map fst m" m val]
    by (auto simp: condition_match_def check_types_same is_scalar_def)
qed

text \<open>The amended C7 at a concrete row: the text column \<open>name\<close> holds \<open>br0\<close>, the operand
  is \<open>br1\<close>; \<open>=\<close> does not match and \<open>!=\<close> does.\<close>

theorem condition_match_eq_ne_witness:
  "get_column_value bridge_row ''name'' = Inr (VAtom (AStr ''br0'')) \<and>
   is_scalar (VAtom (AStr ''br1'')) \<and>
   condition_match bridge_row (''name'', ''='', VAtom (AStr ''br1'')) = Inr False \<and>
   condition_match bridge_row (''name'', ''!='', VAtom (AStr ''br1'')) = Inr True"
proof -
  have t: "py_type (VAtom (AStr ''br1'')) = py_type (VAtom (AStr ''br0'')) \<or>
           (is_string (VAtom (AStr ''br1'')) \<and> is_string (VAtom (AStr ''br0'')))"
    by simp
  have s: "is_scalar (VAtom (AStr ''br1''))" by (simp add: is_scalar_def)
  have e: "condition_match bridge_row (''name'', ''='', VAtom (AStr ''br1'')) = Inr False"
    by (simp add: bridge_row_def condition_match_def get_column_value_def py_getattr_def
      check_types_def)
  show ?thesis
    using bridge_row_name s e condition_match_eq_ne [OF bridge_row_name t] by auto
qed

text \<open>
  C7 as stated fails on columns that are not optional. On the set column
  \<open>flood_vlans = [1, 3]\<close> the operand \<open>[1, 2]\<close> matches under neither operator; on the map
  column \<open>external_ids\<close> the empty map operand matches under both.
\<close>

theorem condition_match_eq_ne_counterexample:
  "is_optional bridge_row ''flood_vlans'' = Inr False \<and>
   get_column_value bridge_row ''flood_vlans'' = Inr (VList [AInt 1, AInt 3]) \<and>
   py_type (VList [AInt 1, AInt 2]) = py_type (VList [AInt 1, AInt 3]) \<and>
   condition_match bridge_row (''flood_vlans'', ''='', VList [AInt 1, AInt 2]) = Inr False \<and>
   condition_match bridge_row (''flood_vlans'', ''!='', VList [AInt 1, AInt 2]) = Inr False \<and>
   is_optional bridge_row ''external_ids'' = Inr False \<and>
   condition_match bridge_row (''external_ids'', ''='', VDict []) = Inr True \<and>
   condition_match bridge_row (''external_ids'', ''!='', VDict []) = Inr True"
  by (simp add: bridge_row_def condition_match_def get_column_value_def py_getattr_def
      check_types_def is_optional_def)

section \<open>Record lookup: properties\<close>

lemma example_idl_Bridge:
  "map_of example_idl ''Bridge'' = Some \<lparr>rows = [(7, bridge_row)], indexes = [[''name'']]\<rparr>"
  by (simp add: example_idl_def)

lemma example_idl_SSL:
  "map_of example_idl ''SSL'' = Some \<lparr>rows = [(2, ssl_row)], indexes = []\<rparr>"
  by (simp add: example_idl_def)

lemma LOOKUP_TABLE_SSL:
  "map_of LOOKUP_TABLE ''SSL'' = Some (RowLookup (Some ''Open_vSwitch'') None (Some ''ssl''))"
  by (simp add: LOOKUP_TABLE_def)

lemma uuid_of_hex_4: "uuid_of_hex ''00000000-0000-0000-0000-000000000004'' = Some 4"
  by (simp add: uuid_of_hex_def hex_digit_def strip_braces_def is_brace_def int16_def
      is_space_def)

lemma uuid_of_hex_urn:
  "uuid_of_hex ''urn:uuid:{00000000-0000-0000-0000-0000000000ff}'' = Some 255"
  by (simp add: uuid_of_hex_def hex_digit_def strip_braces_def is_brace_def int16_def
      is_space_def)

lemma uuid_of_hex_dot: "uuid_of_hex ''.'' = None"
  by (simp add: uuid_of_hex_def strip_braces_def is_brace_def)

subsection \<open>Tables that can only be queried by UUID\<close>

text \<open>For every table whose entry of the lookup table names no target table, a record
  that is no UUID ends in line 91, and line 91 raises \<open>TypeError\<close>.\<close>

lemma uuid_only_table:
  assumes "map_of db table = Some t"
    and "map_of LOOKUP_TABLE table = Some (RowLookup None c uc)"
    and "UUID s = None"
  shows "row_by_record UUID platform db table (VAtom (AStr s)) = Inl TypeError"
  using assms by (simp add: row_by_record_def try_uuid_def by_strategy_def exception_mod_def)

text \<open>
  Claim C2 at the input where the code departs from it: the Queue table, whose entry is
  \<open>RowLookup(None, None, None)\<close>, asked for the record \<open>q1\<close>. The claim promises a
  \<open>ValueError\<close> that names the table; the code raises \<open>TypeError\<close>, since line 91 applies
  \<open>%\<close> to the exception and not to its message.
\<close>

theorem row_by_record_queue_by_name:
  "row_by_record uuid_of_hex ''linux'' example_idl ''Queue'' (VAtom (AStr ''q1'')) = Inl TypeError"
  by (simp add: row_by_record_def example_idl_def try_uuid_def uuid_of_hex_def by_strategy_def
      LOOKUP_TABLE_def exception_mod_def strip_braces_def is_brace_def)

subsection \<open>A UUID that is not in the table\<close>

text \<open>
  Claim C8. When the record parses as a UUID and the table has no row of that UUID,
  \<open>row_by_record\<close> raises \<open>RowNotFound(table, 'uuid', record)\<close> on every platform but
  \<open>win32\<close>; on \<open>win32\<close> it goes on with the lookup by the table's strategy, as it does for a
  record that is no UUID.
\<close>

theorem row_by_record_uuid_absent:
  assumes "map_of db table = Some t"
    and "parses_as_uuid UUID record = Some u"
    and "map_of (rows t) u = None"
  shows "(platform \<noteq> ''win32'' \<longrightarrow>
            row_by_record UUID platform db table record = Inl (RowNotFound table ''uuid'' record)) \<and>
         (platform = ''win32'' \<longrightarrow>
            row_by_record UUID platform db table record = by_strategy db t table record)"
  using assms
  by (auto simp: row_by_record_def try_uuid_def rows_getitem_def parses_as_uuid_def
      split: pyval.splits atom.splits)

text \<open>C8 at a concrete database: the Bridge table holds the row of UUID 7 and is asked
  for UUID 4, on \<open>linux\<close> and on \<open>win32\<close>.\<close>

theorem row_by_record_uuid_absent_witness:
  "map_of example_idl ''Bridge'' = Some \<lparr>rows = [(7, bridge_row)], indexes = [[''name'']]\<rparr> \<and>
   parses_as_uuid uuid_of_hex (VAtom (AStr ''00000000-0000-0000-0000-000000000004'')) = Some 4 \<and>
   map_of (rows \<lparr>rows = [(7, bridge_row)], indexes = [[''name'']]\<rparr>) 4 = None \<and>
   row_by_record uuid_of_hex ''linux'' example_idl ''Bridge''
       (VAtom (AStr ''00000000-0000-0000-0000-000000000004'')) =
     Inl (RowNotFound ''Bridge'' ''uuid'' (VAtom (AStr ''00000000-0000-0000-0000-000000000004''))) \<and>
   row_by_record uuid_of_hex ''win32'' example_idl ''Bridge''
       (VAtom (AStr ''00000000-0000-0000-0000-000000000004'')) =
     by_strategy example_idl \<lparr>rows = [(7, bridge_row)], indexes = [[''name'']]\<rparr> ''Bridge''
       (VAtom (AStr ''00000000-0000-0000-0000-000000000004''))"
proof -
  have p: "parses_as_uuid uuid_of_hex (VAtom (AStr ''00000000-0000-0000-0000-000000000004'')) = Some 4"
    by (simp add: parses_as_uuid_def uuid_of_hex_4)
  have a: "map_of (rows \<lparr>rows = [(7, bridge_row)], indexes = [[''name'']]\<rparr>) 4 = None"
    by simp
  show ?thesis
    using example_idl_Bridge p a
      row_by_record_uuid_absent [OF example_idl_Bridge p a, of "''linux''"]
      row_by_record_uuid_absent [OF example_idl_Bridge p a, of "''win32''"]
    by simp
qed

subsection \<open>Tables whose entry names no column\<close>

text \<open>
  Claim C10, as amended. For a table whose entry of the lookup table names a target
  table and no column, a record that is no UUID is resolved without reading the record:
  the result is the first row of the table that was asked for (\<open>idl_.tables[table]\<close>),
  whatever the target table of the entry is, and \<open>StopIteration\<close> (an exception that is
  no \<open>RowNotFound\<close>) when the table that was asked for has no row.
\<close>

theorem row_by_record_singleton:
  assumes "map_of db table = Some t"
    and "map_of LOOKUP_TABLE table = Some (RowLookup (Some target) None uc)"
    and "UUID s = None"
  shows "row_by_record UUID platform db table (VAtom (AStr s)) =
           (case rows t of [] \<Rightarrow> Inl StopIteration | (u, r) # _ \<Rightarrow> Inr (ARow r))"
  using assms by (simp add: row_by_record_def try_uuid_def by_strategy_def)

text \<open>The amended C10 at a concrete database: the SSL table, asked for the record
  \<open>.\<close>, gives its own first row.\<close>

theorem row_by_record_singleton_witness:
  "map_of example_idl ''SSL'' = Some \<lparr>rows = [(2, ssl_row)], indexes = []\<rparr> \<and>
   map_of LOOKUP_TABLE ''SSL'' = Some (RowLookup (Some ''Open_vSwitch'') None (Some ''ssl'')) \<and>
   uuid_of_hex ''.'' = None \<and>
   row_by_record uuid_of_hex ''linux'' example_idl ''SSL'' (VAtom (AStr ''.'')) = Inr (ARow ssl_row)"
  using example_idl_SSL LOOKUP_TABLE_SSL uuid_of_hex_dot
    row_by_record_singleton [where UUID = uuid_of_hex and s = "''.''" and platform = "''linux''",
      OF example_idl_SSL LOOKUP_TABLE_SSL uuid_of_hex_dot]
  by simp

text \<open>
  C10 as stated fails for SSL, whose entry names the target table Open_vSwitch and no
  column. With one row in each table the code returns the SSL row, not the first row of
  Open_vSwitch; with an empty SSL table it raises \<open>StopIteration\<close> although the target
  table has a row.
\<close>

theorem row_by_record_singleton_counterexample:
  "map_of LOOKUP_TABLE ''SSL'' = Some (RowLookup (Some ''Open_vSwitch'') None (Some ''ssl'')) \<and>
   map_of example_idl ''Open_vSwitch'' = Some \<lparr>rows = [(1, ovs_row)], indexes = []\<rparr> \<and>
   uuid_of_hex ''.'' = None \<and>
   row_by_record uuid_of_hex ''linux'' example_idl ''SSL'' (VAtom (AStr ''.'')) = Inr (ARow ssl_row) \<and>
   ARow ssl_row \<noteq> ARow ovs_row \<and>
   row_by_record uuid_of_hex ''linux''
     [(''Open_vSwitch'', \<lparr>rows = [(1, ovs_row)], indexes = []\<rparr>),
      (''SSL'', \<lparr>rows = [], indexes = []\<rparr>)] ''SSL'' (VAtom (AStr ''.'')) = Inl StopIteration"
  by (simp add: row_by_record_def example_idl_def try_uuid_def uuid_of_hex_def by_strategy_def
      LOOKUP_TABLE_def ssl_row_def ovs_row_def strip_braces_def is_brace_def)

section \<open>The commit loop: properties\<close>

lemma emit_emit: "emit es (emit es' w) = emit (es' @ es) w"
  by (simp add: emit_def)



lemma run_commands_world:
  "\<exists>es. snd (snd (run_commands ce n i cs w)) = emit es w"
proof (induction cs arbitrary: i w)
  case Nil
  have "snd (snd (run_commands ce n i [] w)) = emit [] w" by (simp add: emit_def)
  then show ?case by blast
next
  case (Cons c cs)
  show ?case
  proof (cases "cmd_run_idl c n (result c)")
    case (Inr res)
    from Cons[of "Suc i" "emit [Debug_running n i, Run_idl n i] w"]
    obtain es where "snd (snd (run_commands ce n (Suc i) cs (emit [Debug_running n i, Run_idl n i] w)))
        = emit es (emit [Debug_running n i, Run_idl n i] w)" by blast
    with Inr have "snd (snd (run_commands ce n i (c # cs) w)) = emit ([Debug_running n i, Run_idl n i] @ es) w"
      by (auto simp: emit_emit split: prod.splits)
    then show ?thesis by blast
  next
    case (Inl exc)
    from Cons[of "Suc i" "emit [Debug_running n i, Run_idl n i, Abort n] w"]
    obtain es where "snd (snd (run_commands ce n (Suc i) cs (emit [Debug_running n i, Run_idl n i, Abort n] w)))
        = emit es (emit [Debug_running n i, Run_idl n i, Abort n] w)" by blast
    with Inl have "snd (snd (run_commands ce n i (c # cs) w)) =
        emit ([Debug_running n i, Run_idl n i, Abort n] @ (if ce then [] else es)) w"
      by (auto simp: emit_emit split: prod.splits)
    then show ?thesis by blast
  qed
qed

lemma post_commit_world:
  "\<exists>es. snd (snd (post_commit n i cs w)) = emit es w"
proof (induction cs arbitrary: i w)
  case Nil
  have "snd (snd (post_commit n i [] w)) = emit [] w" by (simp add: emit_def)
  then show ?case by blast
next
  case (Cons c cs)
  show ?case
  proof (cases "cmd_post_commit c n (result c)")
    case (Inr res)
    from Cons[of "Suc i" "emit [Post_commit n i] w"]
    obtain es where "snd (snd (post_commit n (Suc i) cs (emit [Post_commit n i] w)))
        = emit es (emit [Post_commit n i] w)" by blast
    with Inr have "snd (snd (post_commit n i (c # cs) w)) = emit ([Post_commit n i] @ es) w"
      by (auto simp: emit_emit split: prod.splits)
    then show ?thesis by blast
  next
    case (Inl exc)
    then have "snd (snd (post_commit n i (c # cs) w)) = emit [Post_commit n i] w" by simp
    then show ?thesis by blast
  qed
qed

lemma on_status_world:
  "\<exists>es. snd (snd (on_status self w n st)) = emit es w"
proof -
  obtain es where p: "snd (snd (post_commit n 0 (commands self) w)) = emit es w"
    using post_commit_world by blast
  have e: "w = emit [] w" by (simp add: emit_def)
  show ?thesis
    unfolding on_status_def Let_def
    using p e by (auto split: prod.splits option.splits)
qed

lemma attempt_opens_handle:
  "\<exists>rest. trace (snd (snd (attempt self w n))) = trace w @ Open_handle n # rest"
proof -
  obtain e cs w1 where r: "run_commands (check_error self) n 0 (commands self) (emit [Open_handle n] w) = (e, cs, w1)"
    by (metis prod_cases3)
  obtain es where w1: "w1 = emit es (emit [Open_handle n] w)"
    using run_commands_world[of "check_error self" n 0 "commands self" "emit [Open_handle n] w"] r by auto
  show ?thesis
  proof (cases e)
    case (Some exc)
    with r w1 show ?thesis by (simp add: attempt_def emit_def)
  next
    case None
    obtain es' where "snd (snd (on_status (self\<lparr>commands := cs\<rparr>) (emit [Commit_block n] w1) n (commit_block w1 n)))
       = emit es' (emit [Commit_block n] w1)"
      using on_status_world by blast
    with None r w1 show ?thesis by (simp add: attempt_def emit_def)
  qed
qed


text \<open>What a pass leaves alone. The events of the commands, of the post-commit steps
  and of the status policy open no handle, and \<open>attempt\<close> changes neither \<open>start_time\<close>
  nor \<open>timeout\<close> nor the clock: every later deadline check is against the time of the
  first attempt.\<close>

lemma run_commands_frame:
  "\<exists>es. snd (snd (run_commands ce n i cs w)) = emit es w \<and> (\<forall>m. Open_handle m \<notin> set es)"
proof (induction cs arbitrary: i w)
  case Nil
  have "snd (snd (run_commands ce n i [] w)) = emit [] w \<and> (\<forall>m. Open_handle m \<notin> set [])"
    by (simp add: emit_def)
  then show ?case by blast
next
  case (Cons c cs)
  show ?case
  proof (cases "cmd_run_idl c n (result c)")
    case (Inr res)
    from Cons[of "Suc i" "emit [Debug_running n i, Run_idl n i] w"]
    obtain es where es: "snd (snd (run_commands ce n (Suc i) cs (emit [Debug_running n i, Run_idl n i] w)))
        = emit es (emit [Debug_running n i, Run_idl n i] w)" "\<forall>m. Open_handle m \<notin> set es" by blast
    with Inr have "snd (snd (run_commands ce n i (c # cs) w)) = emit ([Debug_running n i, Run_idl n i] @ es) w
        \<and> (\<forall>m. Open_handle m \<notin> set ([Debug_running n i, Run_idl n i] @ es))"
      by (auto simp: emit_emit split: prod.splits)
    then show ?thesis by blast
  next
    case (Inl exc)
    from Cons[of "Suc i" "emit [Debug_running n i, Run_idl n i, Abort n] w"]
    obtain es where es: "snd (snd (run_commands ce n (Suc i) cs (emit [Debug_running n i, Run_idl n i, Abort n] w)))
        = emit es (emit [Debug_running n i, Run_idl n i, Abort n] w)" "\<forall>m. Open_handle m \<notin> set es" by blast
    with Inl have "snd (snd (run_commands ce n i (c # cs) w)) =
        emit ([Debug_running n i, Run_idl n i, Abort n] @ (if ce then [] else es)) w
        \<and> (\<forall>m. Open_handle m \<notin> set ([Debug_running n i, Run_idl n i, Abort n] @ (if ce then [] else es)))"
      by (auto simp: emit_emit split: prod.splits)
    then show ?thesis by blast
  qed
qed

lemma post_commit_frame:
  "\<exists>es. snd (snd (post_commit n i cs w)) = emit es w \<and> (\<forall>m. Open_handle m \<notin> set es)"
proof (induction cs arbitrary: i w)
  case Nil
  have "snd (snd (post_commit n i [] w)) = emit [] w \<and> (\<forall>m. Open_handle m \<notin> set [])"
    by (simp add: emit_def)
  then show ?case by blast
next
  case (Cons c cs)
  show ?case
  proof (cases "cmd_post_commit c n (result c)")
    case (Inr res)
    from Cons[of "Suc i" "emit [Post_commit n i] w"]
    obtain es where "snd (snd (post_commit n (Suc i) cs (emit [Post_commit n i] w)))
        = emit es (emit [Post_commit n i] w)" "\<forall>m. Open_handle m \<notin> set es" by blast
    with Inr have "snd (snd (post_commit n i (c # cs) w)) = emit ([Post_commit n i] @ es) w
       \<and> (\<forall>m. Open_handle m \<notin> set ([Post_commit n i] @ es))"
      by (auto simp: emit_emit split: prod.splits)
    then show ?thesis by blast
  next
    case (Inl exc)
    then have "snd (snd (post_commit n i (c # cs) w)) = emit [Post_commit n i] w
       \<and> (\<forall>m. Open_handle m \<notin> set [Post_commit n i])" by simp
    then show ?thesis by blast
  qed
qed

lemma on_status_frame:
  "\<exists>es. snd (snd (on_status self w n st)) = emit es w \<and> (\<forall>m. Open_handle m \<notin> set es) \<and>
        start_time (fst (snd (on_status self w n st))) = start_time self \<and>
        timeout (fst (snd (on_status self w n st))) = timeout self \<and>
        check_error (fst (snd (on_status self w n st))) = check_error self"
proof -
  obtain es where p: "snd (snd (post_commit n 0 (commands self) w)) = emit es w"
     "\<forall>m. Open_handle m \<notin> set es"
    using post_commit_frame by blast
  have e: "w = emit [] w" by (simp add: emit_def)
  consider "st = TRY_AGAIN" | "st = ERROR \<or> st = NOT_LOCKED" | "st = ABORTED" | "st = UNCHANGED"
    | "st = SUCCESS" | "st = UNCOMMITTED \<or> st = INCOMPLETE"
    by (cases st) auto
  then show ?thesis
  proof cases
    case 1
    then have "snd (snd (on_status self w n st)) = emit [Debug_try_again, Idl_run] w \<and>
        (\<forall>m. Open_handle m \<notin> set [Debug_try_again, Idl_run]) \<and>
        start_time (fst (snd (on_status self w n st))) = start_time self \<and>
        timeout (fst (snd (on_status self w n st))) = timeout self \<and>
        check_error (fst (snd (on_status self w n st))) = check_error self"
      by (simp add: on_status_def)
    then show ?thesis by blast
  next
    case 2
    let ?es = "if log_errors self then [Log_error (error_message w n st)] else []"
    from 2 have "snd (snd (on_status self w n st)) = emit ?es w \<and>
        (\<forall>m. Open_handle m \<notin> set ?es) \<and>
        start_time (fst (snd (on_status self w n st))) = start_time self \<and>
        timeout (fst (snd (on_status self w n st))) = timeout self \<and>
        check_error (fst (snd (on_status self w n st))) = check_error self"
      by (auto simp: on_status_def Let_def emit_def)
    then show ?thesis by blast
  next
    case 3
    then have "snd (snd (on_status self w n st)) = emit [Debug_aborted] w \<and>
        (\<forall>m. Open_handle m \<notin> set [Debug_aborted]) \<and>
        start_time (fst (snd (on_status self w n st))) = start_time self \<and>
        timeout (fst (snd (on_status self w n st))) = timeout self \<and>
        check_error (fst (snd (on_status self w n st))) = check_error self"
      by (simp add: on_status_def)
    then show ?thesis by blast
  next
    case 4
    then have "snd (snd (on_status self w n st)) = emit [Debug_unchanged] w \<and>
        (\<forall>m. Open_handle m \<notin> set [Debug_unchanged]) \<and>
        start_time (fst (snd (on_status self w n st))) = start_time self \<and>
        timeout (fst (snd (on_status self w n st))) = timeout self \<and>
        check_error (fst (snd (on_status self w n st))) = check_error self"
      by (simp add: on_status_def)
    then show ?thesis by blast
  next
    case 5
    with p have "snd (snd (on_status self w n st)) = emit es w \<and>
        (\<forall>m. Open_handle m \<notin> set es) \<and>
        start_time (fst (snd (on_status self w n st))) = start_time self \<and>
        timeout (fst (snd (on_status self w n st))) = timeout self \<and>
        check_error (fst (snd (on_status self w n st))) = check_error self"
      by (auto simp: on_status_def split: prod.splits option.splits)
    then show ?thesis by blast
  next
    case 6
    then have "snd (snd (on_status self w n st)) = emit [Debug_unknown st] w \<and>
        (\<forall>m. Open_handle m \<notin> set [Debug_unknown st]) \<and>
        start_time (fst (snd (on_status self w n st))) = start_time self \<and>
        timeout (fst (snd (on_status self w n st))) = timeout self \<and>
        check_error (fst (snd (on_status self w n st))) = check_error self"
      by (auto simp: on_status_def)
    then show ?thesis by blast
  qed
qed

lemma attempt_frame:
  assumes "attempt self w n = (st, self', w')"
  shows "\<exists>rest. w' = emit (Open_handle n # rest) w \<and> (\<forall>m. Open_handle m \<notin> set rest) \<and>
           start_time self' = start_time self \<and> timeout self' = timeout self \<and>
           check_error self' = check_error self"
proof -
  obtain e cs w1 where r: "run_commands (check_error self) n 0 (commands self) (emit [Open_handle n] w) = (e, cs, w1)"
    by (metis prod_cases3)
  obtain es where w1: "w1 = emit es (emit [Open_handle n] w)" and no: "\<forall>m. Open_handle m \<notin> set es"
    using run_commands_frame[of "check_error self" n 0 "commands self" "emit [Open_handle n] w"] r by auto
  show ?thesis
  proof (cases e)
    case (Some exc)
    with r w1 assms have "w' = emit (Open_handle n # es) w" "start_time self' = start_time self"
      "timeout self' = timeout self" "check_error self' = check_error self"
      by (auto simp: attempt_def emit_emit)
    with no show ?thesis by blast
  next
    case None
    let ?self1 = "self\<lparr>commands := cs\<rparr>" and ?w2 = "emit [Commit_block n] w1"
    obtain es' where o: "snd (snd (on_status ?self1 ?w2 n (commit_block w1 n))) = emit es' ?w2"
       "\<forall>m. Open_handle m \<notin> set es'"
       "start_time (fst (snd (on_status ?self1 ?w2 n (commit_block w1 n)))) = start_time ?self1"
       "timeout (fst (snd (on_status ?self1 ?w2 n (commit_block w1 n)))) = timeout ?self1"
       "check_error (fst (snd (on_status ?self1 ?w2 n (commit_block w1 n)))) = check_error ?self1"
      using on_status_frame[of ?self1 ?w2 n "commit_block w1 n"] by blast
    from None r assms have a: "on_status ?self1 ?w2 n (commit_block w1 n) = (st, self', w')"
      by (simp add: attempt_def)
    from o a w1 have "w' = emit (Open_handle n # (es @ Commit_block n # es')) w"
      "start_time self' = start_time self" "timeout self' = timeout self"
      "check_error self' = check_error self"
      by (simp_all add: emit_emit)
    moreover have "\<forall>m. Open_handle m \<notin> set (es @ Commit_block n # es')" using no o(2) by auto
    ultimately show ?thesis by blast
  qed
qed

lemma emit_fields:
  "clock (emit es w) = clock w" "reads (emit es w) = reads w"
  "commit_block (emit es w) = commit_block w" "trace (emit es w) = trace w @ es"
  by (simp_all add: emit_def)

lemma timeout_exceeded_simps:
  "fst (timeout_exceeded self w) = (timeout self < clock w (reads w) - start_time self)"
  "snd (timeout_exceeded self w) = w\<lparr>reads := Suc (reads w)\<rparr>"
  by (simp_all add: timeout_exceeded_def elapsed_time_def time_now_def)

lemma do_commit_loop_handles:
  assumes "do_commit_loop fuel self w attempts = Some (out, self', w')"
    and "reads w = R + max 1 attempts"
  shows "\<exists>es. trace w' = trace w @ es \<and>
           (\<forall>n. Open_handle n \<in> set es \<longrightarrow>
              attempts < n \<and> (n = 1 \<or> clock w (R + (n - 1)) - start_time self \<le> timeout self))"
  using assms
proof (induction fuel arbitrary: self w attempts)
  case 0
  then show ?case by simp
next
  case (Suc fuel)
  show ?case
  proof (cases "0 < attempts \<and> fst (timeout_exceeded self w)")
    case True
    with Suc.prems have "w' = snd (timeout_exceeded self w)" by auto
    then have "trace w' = trace w @ []" by (simp add: timeout_exceeded_simps)
    then show ?thesis by (metis empty_iff list.set(1))
  next
    case False
    let ?w0 = "if 0 < attempts then snd (timeout_exceeded self w) else w"
    let ?n = "Suc attempts"
    obtain st self1 w1 where a: "attempt self ?w0 ?n = (st, self1, w1)"
      by (metis prod_cases3)
    from attempt_frame[OF a] obtain rest where
      w1: "w1 = emit (Open_handle ?n # rest) ?w0" and no: "\<forall>m. Open_handle m \<notin> set rest"
      and st1: "start_time self1 = start_time self" and to1: "timeout self1 = timeout self"
      by blast
    have tr0: "trace ?w0 = trace w" and ck0: "clock ?w0 = clock w"
      by (simp_all add: timeout_exceeded_simps)
    have rd1: "reads w1 = R + max 1 ?n"
      using w1 Suc.prems(2) by (auto simp: timeout_exceeded_simps emit_fields)
    have here: "?n = 1 \<or> clock w (R + (?n - 1)) - start_time self \<le> timeout self"
    proof (cases "attempts = 0")
      case True then show ?thesis by simp
    next
      case nz: False
      with False have "\<not> timeout self < clock w (reads w) - start_time self"
        by (simp add: timeout_exceeded_simps)
      moreover from nz Suc.prems(2) have "reads w = R + attempts" by simp
      ultimately show ?thesis by simp
    qed
    show ?thesis
    proof (cases st)
      case (Done o')
      with Suc.prems(1) False a have "w' = w1" by auto
      with w1 tr0 have "trace w' = trace w @ (Open_handle ?n # rest)" by (simp add: emit_fields)
      moreover have "\<forall>n. Open_handle n \<in> set (Open_handle ?n # rest) \<longrightarrow>
              attempts < n \<and> (n = 1 \<or> clock w (R + (n - 1)) - start_time self \<le> timeout self)"
        using no here by auto
      ultimately show ?thesis by blast
    next
      case Retry
      with Suc.prems(1) False a have l: "do_commit_loop fuel self1 w1 ?n = Some (out, self', w')"
        by auto
      from Suc.IH[OF l rd1] obtain es where
        es: "trace w' = trace w1 @ es"
        "\<forall>n. Open_handle n \<in> set es \<longrightarrow>
              ?n < n \<and> (n = 1 \<or> clock w1 (R + (n - 1)) - start_time self1 \<le> timeout self1)"
        by blast
      have ck1: "clock w1 = clock w" using w1 ck0 by (simp add: emit_fields)
      have "trace w' = trace w @ (Open_handle ?n # rest @ es)"
        using es(1) w1 tr0 by (simp add: emit_fields)
      moreover have "\<forall>n. Open_handle n \<in> set (Open_handle ?n # rest @ es) \<longrightarrow>
              attempts < n \<and> (n = 1 \<or> clock w (R + (n - 1)) - start_time self \<le> timeout self)"
        using no here es(2) ck1 st1 to1 by auto
      ultimately show ?thesis by blast
    qed
  qed
qed


lemma run_commands_unchecked: "fst (run_commands False n i cs w) = None"
proof (induction cs arbitrary: i w)
  case Nil
  show ?case by simp
next
  case (Cons c cs)
  show ?case
  proof (cases "cmd_run_idl c n (result c)")
    case (Inr res)
    obtain e cs1 w1 where r: "run_commands False n (Suc i) cs (emit [Debug_running n i, Run_idl n i] w) = (e, cs1, w1)"
      by (metis prod_cases3)
    with Cons[of "Suc i" "emit [Debug_running n i, Run_idl n i] w"] have "e = None" by simp
    with Inr r show ?thesis by simp
  next
    case (Inl exc)
    obtain e cs1 w1 where r: "run_commands False n (Suc i) cs (emit [Debug_running n i, Run_idl n i, Abort n] w) = (e, cs1, w1)"
      by (metis prod_cases3)
    with Cons[of "Suc i" "emit [Debug_running n i, Run_idl n i, Abort n] w"] have "e = None" by simp
    with Inl r show ?thesis by simp
  qed
qed

lemma attempt_try_again:
  assumes "\<not> check_error self" and "\<forall>m. commit_block w m = TRY_AGAIN"
  shows "fst (attempt self w n) = Retry"
proof -
  obtain e cs w1 where r: "run_commands (check_error self) n 0 (commands self) (emit [Open_handle n] w) = (e, cs, w1)"
    by (metis prod_cases3)
  from r assms(1) run_commands_unchecked[of n 0 "commands self" "emit [Open_handle n] w"]
  have e: "e = None" by simp
  obtain es where "w1 = emit es (emit [Open_handle n] w)"
    using run_commands_frame[of "check_error self" n 0 "commands self" "emit [Open_handle n] w"] r by auto
  then have "commit_block w1 n = TRY_AGAIN" using assms(2) by (simp add: emit_fields)
  with r e show ?thesis by (simp add: attempt_def on_status_def)
qed

lemma do_commit_loop_ends:
  assumes "reads w = R + max 1 attempts"
    and "timeout self < clock w (R + k) - start_time self"
    and "0 < k" and "attempts \<le> k" and "k < fuel + attempts"
  shows "do_commit_loop fuel self w attempts \<noteq> None \<and>
         (\<not> check_error self \<and> (\<forall>m. commit_block w m = TRY_AGAIN) \<longrightarrow>
            (\<exists>self' w'. do_commit_loop fuel self w attempts =
                Some (Raised (RuntimeError ''OVS transaction timed out''), self', w')))"
  using assms
proof (induction fuel arbitrary: self w attempts)
  case 0
  then show ?case by simp
next
  case (Suc fuel)
  show ?case
  proof (cases "0 < attempts \<and> fst (timeout_exceeded self w)")
    case True
    then show ?thesis by simp
  next
    case False
    let ?w0 = "if 0 < attempts then snd (timeout_exceeded self w) else w"
    let ?n = "Suc attempts"
    obtain st self1 w1 where a: "attempt self ?w0 ?n = (st, self1, w1)"
      by (metis prod_cases3)
    from attempt_frame[OF a] obtain rest where
      w1: "w1 = emit (Open_handle ?n # rest) ?w0"
      and st1: "start_time self1 = start_time self" and to1: "timeout self1 = timeout self"
      and ce1: "check_error self1 = check_error self"
      by blast
    have ck1: "clock w1 = clock w" and cb1: "commit_block w1 = commit_block w"
      using w1 by (simp_all add: emit_fields timeout_exceeded_simps)
    have rd1: "reads w1 = R + max 1 ?n"
      using w1 Suc.prems(1) by (auto simp: timeout_exceeded_simps emit_fields)
    have le: "?n \<le> k"
    proof (cases "attempts = 0")
      case True with Suc.prems(3) show ?thesis by simp
    next
      case nz: False
      with False have "\<not> timeout self < clock w (reads w) - start_time self"
        by (simp add: timeout_exceeded_simps)
      moreover from nz Suc.prems(1) have "reads w = R + attempts" by simp
      ultimately have "attempts \<noteq> k" using Suc.prems(2) by auto
      with Suc.prems(4) show ?thesis by simp
    qed
    have ex1: "timeout self1 < clock w1 (R + k) - start_time self1"
      using Suc.prems(2) ck1 st1 to1 by simp
    have fu: "k < fuel + ?n" using Suc.prems(5) by simp
    note IH = Suc.IH[OF rd1 ex1 Suc.prems(3) le fu]
    have loop: "do_commit_loop (Suc fuel) self w attempts =
        (case st of Retry \<Rightarrow> do_commit_loop fuel self1 w1 ?n | Done out \<Rightarrow> Some (out, self1, w1))"
      using False a by (auto split: step.splits)
    have ne: "do_commit_loop (Suc fuel) self w attempts \<noteq> None"
      using IH by (cases st) (simp_all add: loop del: do_commit_loop.simps)
    have ta: "\<not> check_error self \<and> (\<forall>m. commit_block w m = TRY_AGAIN) \<longrightarrow>
            (\<exists>self' w'. do_commit_loop (Suc fuel) self w attempts =
                Some (Raised (RuntimeError ''OVS transaction timed out''), self', w'))"
    proof
      assume h: "\<not> check_error self \<and> (\<forall>m. commit_block w m = TRY_AGAIN)"
      then have "\<forall>m. commit_block ?w0 m = TRY_AGAIN" by (simp add: timeout_exceeded_simps)
      with h attempt_try_again[of self ?w0 ?n] a have "st = Retry" by simp
      moreover from h ce1 cb1 have "\<not> check_error self1 \<and> (\<forall>m. commit_block w1 m = TRY_AGAIN)"
        by simp
      ultimately show "\<exists>self' w'. do_commit_loop (Suc fuel) self w attempts =
                Some (Raised (RuntimeError ''OVS transaction timed out''), self', w')"
        using IH by (simp add: loop del: do_commit_loop.simps)
    qed
    from ne ta show ?thesis by blast
  qed
qed

text \<open>
  Claim C4. (1) In a pass of the loop after the first (\<open>attempts > 0\<close>), when the clock read
  at the start of the pass is more than \<open>timeout\<close> past \<open>start_time\<close>, \<open>do_commit\<close> raises
  \<open>RuntimeError('OVS transaction timed out')\<close> and does nothing else: the events are
  those of before, so no handle is opened. (2) The first attempt runs whatever the clock
  reads: \<open>do_commit\<close> with at least one pass allowed goes through attempt 1, which opens
  handle 1 first. (3) An attempt keeps \<open>start_time\<close>, \<open>timeout\<close> and the clock, so the
  deadline of every pass is that of the first attempt. (4) In every run of \<open>do_commit\<close>
  that ends, each handle opened after the first was opened in a pass whose clock
  reading was at most \<open>timeout\<close> past the reading taken when \<open>do_commit\<close> started. (5) When
  the \<open>k\<close>-th reading after the start is past the deadline, \<open>do_commit\<close> ends within
  \<open>k + 1\<close> passes, and against a handle that reports \<open>TRY_AGAIN\<close> for ever (with
  \<open>check_error\<close> off, so that no command ends the run) it ends with the
  \<open>RuntimeError\<close>.
\<close>

theorem do_commit_deadline:
  "(0 < attempts \<and> timeout self < clock w (reads w) - start_time self \<longrightarrow>
      do_commit_loop (Suc fuel) self w attempts =
        Some (Raised (RuntimeError ''OVS transaction timed out''), self,
              w\<lparr>reads := Suc (reads w)\<rparr>)) \<and>
   (\<exists>st self' w' rest.
      attempt (self\<lparr>start_time := clock w (reads w)\<rparr>) (w\<lparr>reads := Suc (reads w)\<rparr>) 1 =
        (st, self', w') \<and>
      trace w' = trace w @ Open_handle 1 # rest \<and>
      do_commit (Suc fuel) self w =
        (case st of Retry \<Rightarrow> do_commit_loop fuel self' w' 1
                  | Done out \<Rightarrow> Some (out, self', w'))) \<and>
   (start_time (fst (snd (attempt self w n))) = start_time self \<and>
    timeout (fst (snd (attempt self w n))) = timeout self \<and>
    clock (snd (snd (attempt self w n))) = clock w \<and>
    reads (snd (snd (attempt self w n))) = reads w) \<and>
   (\<forall>out self' w'. do_commit fuel' self w = Some (out, self', w') \<longrightarrow>
      (\<exists>es. trace w' = trace w @ es \<and>
         (\<forall>m. Open_handle m \<in> set es \<longrightarrow>
            m = 1 \<or> clock w (reads w + (m - 1)) - clock w (reads w) \<le> timeout self))) \<and>
   (0 < k \<and> k < fuel' \<and> timeout self < clock w (reads w + k) - clock w (reads w) \<longrightarrow>
      do_commit fuel' self w \<noteq> None \<and>
      (\<not> check_error self \<and> (\<forall>m. commit_block w m = TRY_AGAIN) \<longrightarrow>
         (\<exists>self' w'. do_commit fuel' self w =
            Some (Raised (RuntimeError ''OVS transaction timed out''), self', w'))))"
proof (intro conjI)
  show "0 < attempts \<and> timeout self < clock w (reads w) - start_time self \<longrightarrow>
      do_commit_loop (Suc fuel) self w attempts =
        Some (Raised (RuntimeError ''OVS transaction timed out''), self,
              w\<lparr>reads := Suc (reads w)\<rparr>)"
    by (simp add: timeout_exceeded_def elapsed_time_def time_now_def)
next
  let ?self = "self\<lparr>start_time := clock w (reads w)\<rparr>"
  let ?w = "w\<lparr>reads := Suc (reads w)\<rparr>"
  obtain st self' w' where a: "attempt ?self ?w 1 = (st, self', w')"
    by (metis prod_cases3)
  from attempt_opens_handle[of ?self ?w 1] a
  obtain rest where t: "trace w' = trace w @ Open_handle 1 # rest" by auto
  have "do_commit (Suc fuel) self w =
        (case st of Retry \<Rightarrow> do_commit_loop fuel self' w' 1
                  | Done out \<Rightarrow> Some (out, self', w'))"
    using a by (simp add: do_commit_def time_now_def split: step.splits)
  with a t show "\<exists>st self' w' rest.
      attempt ?self ?w 1 = (st, self', w') \<and>
      trace w' = trace w @ Open_handle 1 # rest \<and>
      do_commit (Suc fuel) self w =
        (case st of Retry \<Rightarrow> do_commit_loop fuel self' w' 1
                  | Done out \<Rightarrow> Some (out, self', w'))"
    by blast
next
  obtain st self' w' where a: "attempt self w n = (st, self', w')"
    by (metis prod_cases3)
  from attempt_frame[OF a] a
  show "start_time (fst (snd (attempt self w n))) = start_time self" by auto
  from attempt_frame[OF a] a
  show "timeout (fst (snd (attempt self w n))) = timeout self" by auto
  from attempt_frame[OF a] a
  show "clock (snd (snd (attempt self w n))) = clock w" by (auto simp: emit_fields)
  from attempt_frame[OF a] a
  show "reads (snd (snd (attempt self w n))) = reads w" by (auto simp: emit_fields)
next
  let ?self = "self\<lparr>start_time := clock w (reads w)\<rparr>"
  let ?w = "w\<lparr>reads := Suc (reads w)\<rparr>"
  show "\<forall>out self' w'. do_commit fuel' self w = Some (out, self', w') \<longrightarrow>
      (\<exists>es. trace w' = trace w @ es \<and>
         (\<forall>m. Open_handle m \<in> set es \<longrightarrow>
            m = 1 \<or> clock w (reads w + (m - 1)) - clock w (reads w) \<le> timeout self))"
  proof (intro allI impI)
    fix out self' w'
    assume "do_commit fuel' self w = Some (out, self', w')"
    then have l: "do_commit_loop fuel' ?self ?w 0 = Some (out, self', w')"
      by (simp add: do_commit_def time_now_def)
    have r: "reads ?w = reads w + max 1 0" by simp
    from do_commit_loop_handles[OF l r] obtain es where
      "trace w' = trace ?w @ es"
      "\<forall>m. Open_handle m \<in> set es \<longrightarrow>
          0 < m \<and> (m = 1 \<or> clock ?w (reads w + (m - 1)) - start_time ?self \<le> timeout ?self)"
      by blast
    then have "trace w' = trace w @ es \<and>
         (\<forall>m. Open_handle m \<in> set es \<longrightarrow>
            m = 1 \<or> clock w (reads w + (m - 1)) - clock w (reads w) \<le> timeout self)"
      by simp
    then show "\<exists>es. trace w' = trace w @ es \<and>
         (\<forall>m. Open_handle m \<in> set es \<longrightarrow>
            m = 1 \<or> clock w (reads w + (m - 1)) - clock w (reads w) \<le> timeout self)"
      by blast
  qed
next
  let ?self = "self\<lparr>start_time := clock w (reads w)\<rparr>"
  let ?w = "w\<lparr>reads := Suc (reads w)\<rparr>"
  show "0 < k \<and> k < fuel' \<and> timeout self < clock w (reads w + k) - clock w (reads w) \<longrightarrow>
      do_commit fuel' self w \<noteq> None \<and>
      (\<not> check_error self \<and> (\<forall>m. commit_block w m = TRY_AGAIN) \<longrightarrow>
         (\<exists>self' w'. do_commit fuel' self w =
            Some (Raised (RuntimeError ''OVS transaction timed out''), self', w')))"
  proof
    assume h: "0 < k \<and> k < fuel' \<and> timeout self < clock w (reads w + k) - clock w (reads w)"
    have r: "reads ?w = reads w + max 1 0" by simp
    have e: "timeout ?self < clock ?w (reads w + k) - start_time ?self" using h by simp
    have d: "do_commit fuel' self w = do_commit_loop fuel' ?self ?w 0"
      by (simp add: do_commit_def time_now_def)
    from do_commit_loop_ends[OF r e, of fuel'] h
    show "do_commit fuel' self w \<noteq> None \<and>
      (\<not> check_error self \<and> (\<forall>m. commit_block w m = TRY_AGAIN) \<longrightarrow>
         (\<exists>self' w'. do_commit fuel' self w =
            Some (Raised (RuntimeError ''OVS transaction timed out''), self', w')))"
      unfolding d by simp
  qed
qed

text \<open>C4 at a concrete transaction. At a pass with three attempts behind and the clock
  at 112, past the deadline 110, the loop raises. The whole run against a handle that
  always reports \<open>TRY_AGAIN\<close> (clock 100, 104, 108, 112, ...) ends with the
  \<open>RuntimeError\<close> and never opens a fourth or fifth handle.\<close>

theorem do_commit_deadline_witness:
  "(0::nat) < 3 \<and>
   timeout (example_txn False True) <
     clock (example_world (\<lambda>n. TRY_AGAIN) 3) (reads (example_world (\<lambda>n. TRY_AGAIN) 3)) -
     start_time (example_txn False True) \<and>
   do_commit_loop (Suc 5) (example_txn False True) (example_world (\<lambda>n. TRY_AGAIN) 3) 3 =
     Some (Raised (RuntimeError ''OVS transaction timed out''), example_txn False True,
           (example_world (\<lambda>n. TRY_AGAIN) 3)\<lparr>reads := 4\<rparr>) \<and>
   (3::nat) < 5 \<and>
   timeout (example_txn False True) <
     clock (example_world (\<lambda>n. TRY_AGAIN) 0) (reads (example_world (\<lambda>n. TRY_AGAIN) 0) + 3) -
     clock (example_world (\<lambda>n. TRY_AGAIN) 0) (reads (example_world (\<lambda>n. TRY_AGAIN) 0)) \<and>
   \<not> check_error (example_txn False True) \<and>
   (\<forall>m. commit_block (example_world (\<lambda>n. TRY_AGAIN) 0) m = TRY_AGAIN) \<and>
   (\<exists>self' w'. do_commit 5 (example_txn False True) (example_world (\<lambda>n. TRY_AGAIN) 0) =
        Some (Raised (RuntimeError ''OVS transaction timed out''), self', w') \<and>
      Open_handle 4 \<notin> set (trace w') \<and> Open_handle 5 \<notin> set (trace w'))"
proof -
  let ?T = "example_txn False True"
  let ?W3 = "example_world (\<lambda>n. TRY_AGAIN) 3" and ?W = "example_world (\<lambda>n. TRY_AGAIN) 0"
  have h: "(0::nat) < 3 \<and> timeout ?T < clock ?W3 (reads ?W3) - start_time ?T"
    by (simp add: example_txn_def example_world_def)
  have a: "do_commit_loop (Suc 5) ?T ?W3 3 =
     Some (Raised (RuntimeError ''OVS transaction timed out''), ?T, ?W3\<lparr>reads := 4\<rparr>)"
    using h do_commit_deadline [of 3 ?T ?W3 5] by (simp add: example_world_def)
  have k: "(0::nat) < 3 \<and> (3::nat) < 5 \<and> timeout ?T < clock ?W (reads ?W + 3) - clock ?W (reads ?W)"
    by (simp add: example_txn_def example_world_def)
  have c: "\<not> check_error ?T \<and> (\<forall>m. commit_block ?W m = TRY_AGAIN)"
    by (simp add: example_txn_def example_world_def)
  have t0: "trace ?W = []" and to: "timeout ?T = 10" and ck: "\<And>j. clock ?W j = 100 + 4 * real j"
    and rd: "reads ?W = 0"
    by (simp_all add: example_txn_def example_world_def)
  note D = do_commit_deadline [of 0 ?T ?W 0 0 5 3]
  from D k c obtain self' w' where
    run: "do_commit 5 ?T ?W = Some (Raised (RuntimeError ''OVS transaction timed out''), self', w')"
    by blast
  from D run obtain es where es: "trace w' = trace ?W @ es"
    "\<forall>m. Open_handle m \<in> set es \<longrightarrow>
         m = 1 \<or> clock ?W (reads ?W + (m - 1)) - clock ?W (reads ?W) \<le> timeout ?T"
    by blast
  have n4: "Open_handle 4 \<notin> set (trace w')"
  proof
    assume "Open_handle 4 \<in> set (trace w')"
    with es(1) t0 have "Open_handle 4 \<in> set es" by simp
    with es(2) have "(4::nat) = 1 \<or> clock ?W (reads ?W + (4 - 1)) - clock ?W (reads ?W) \<le> timeout ?T"
      by blast
    then show False by (simp add: to ck rd)
  qed
  have n5: "Open_handle 5 \<notin> set (trace w')"
  proof
    assume "Open_handle 5 \<in> set (trace w')"
    with es(1) t0 have "Open_handle 5 \<in> set es" by simp
    with es(2) have "(5::nat) = 1 \<or> clock ?W (reads ?W + (5 - 1)) - clock ?W (reads ?W) \<le> timeout ?T"
      by blast
    then show False by (simp add: to ck rd)
  qed
  from run n4 n5 have "\<exists>self' w'. do_commit 5 ?T ?W =
        Some (Raised (RuntimeError ''OVS transaction timed out''), self', w') \<and>
      Open_handle 4 \<notin> set (trace w') \<and> Open_handle 5 \<notin> set (trace w')"
    by blast
  with h a k c show ?thesis by blast
qed

text \<open>A whole run against a handle that always reports
  \<open>TRY_AGAIN\<close>: three handles are opened (at 100, 104 and 108), and the fourth pass, at
  112, raises.\<close>

lemma do_commit_try_again_forever:
  "map_option (\<lambda>(out, self, w). (out, reads w, filter (\<lambda>e. e \<in> {Open_handle 1, Open_handle 2, Open_handle 3, Open_handle 4, Open_handle 5}) (trace w)))
     (do_commit 5 (example_txn False True) (example_world (\<lambda>n. TRY_AGAIN) 0)) =
   Some (Raised (RuntimeError ''OVS transaction timed out''), 4, [Open_handle 1, Open_handle 2, Open_handle 3])"
  by (simp add: do_commit_def time_now_def example_txn_def example_world_def attempt_def
      add_port_def list_ports_def emit_def on_status_def timeout_exceeded_def elapsed_time_def
      numeral_eq_Suc)


lemma example_run:
  "run_commands ce 1 0 (commands (example_txn ce le)) (emit [Open_handle 1] (example_world sts 1)) =
     (None, ran, emit ran_events (example_world sts 1))"
  by (simp add: example_txn_def example_world_def add_port_def list_ports_def emit_def ran_def
      ran_events_def)

text \<open>
  Claim C5. A pass that reaches \<open>commit_block\<close> (the deadline has not passed, no command
  raised under \<open>check_error\<close>) and is told \<open>ERROR\<close> or \<open>NOT_LOCKED\<close> ends \<open>do_commit\<close>.
  The message is \<open>'OVSDB Error: '\<close> followed by the lock text for \<open>NOT_LOCKED\<close> and by
  \<open>get_error()\<close> for \<open>ERROR\<close>; it is logged exactly when \<open>log_errors\<close> is set; with
  \<open>check_error\<close> a \<open>RuntimeError\<close> carrying the message is raised, without it \<open>do_commit\<close>
  returns \<open>None\<close>.
\<close>

theorem do_commit_error_status:
  assumes live: "\<not> (0 < attempts \<and> fst (timeout_exceeded self w))"
    and w0: "w0 = (if 0 < attempts then snd (timeout_exceeded self w) else w)"
    and run: "run_commands (check_error self) (Suc attempts) 0 (commands self)
                (emit [Open_handle (Suc attempts)] w0) = (None, cs, w1)"
    and st: "commit_block w1 (Suc attempts) = ERROR \<or> commit_block w1 (Suc attempts) = NOT_LOCKED"
    and msg: "msg = ''OVSDB Error: '' @
                (if commit_block w1 (Suc attempts) = NOT_LOCKED then not_locked_message
                 else get_error w1 (Suc attempts))"
  shows "do_commit_loop (Suc fuel) self w attempts =
     Some (if check_error self then Raised (RuntimeError msg) else Return None,
           self\<lparr>commands := cs\<rparr>,
           emit (Commit_block (Suc attempts) # (if log_errors self then [Log_error msg] else [])) w1)"
proof -
  have a: "attempt self w0 (Suc attempts) =
     (Done (if check_error self then Raised (RuntimeError msg) else Return None),
      self\<lparr>commands := cs\<rparr>,
      emit (Commit_block (Suc attempts) # (if log_errors self then [Log_error msg] else [])) w1)"
    using run st msg
    by (auto simp: attempt_def on_status_def error_message_def emit_def Let_def)
  show ?thesis using live a unfolding w0 by auto
qed

text \<open>C5 at a concrete transaction: \<open>check_error\<close> off,
  \<open>log_errors\<close> on, the handle reports \<open>ERROR\<close> with the text \<open>constraint violation\<close>.\<close>

theorem do_commit_error_status_witness:
  "\<not> (0 < (0::nat) \<and> fst (timeout_exceeded (example_txn False True) (example_world (\<lambda>n. ERROR) 1))) \<and>
   run_commands (check_error (example_txn False True)) (Suc 0) 0 (commands (example_txn False True))
       (emit [Open_handle (Suc 0)] (example_world (\<lambda>n. ERROR) 1)) =
     (None, ran, emit ran_events (example_world (\<lambda>n. ERROR) 1)) \<and>
   commit_block (emit ran_events (example_world (\<lambda>n. ERROR) 1)) (Suc 0) = ERROR \<and>
   do_commit_loop (Suc 0) (example_txn False True) (example_world (\<lambda>n. ERROR) 1) 0 =
     Some (Return None, (example_txn False True)\<lparr>commands := ran\<rparr>,
           emit (ran_events @ [Commit_block 1, Log_error ''OVSDB Error: constraint violation''])
             (example_world (\<lambda>n. ERROR) 1))"
proof -
  let ?T = "example_txn False True" and ?W = "example_world (\<lambda>n. ERROR) 1"
  have live: "\<not> (0 < (0::nat) \<and> fst (timeout_exceeded ?T ?W))" by simp
  have w0: "?W = (if 0 < (0::nat) then snd (timeout_exceeded ?T ?W) else ?W)" by simp
  have run: "run_commands (check_error ?T) (Suc 0) 0 (commands ?T) (emit [Open_handle (Suc 0)] ?W) =
     (None, ran, emit ran_events ?W)"
    using example_run[of False True "\<lambda>n. ERROR"] by (simp add: example_txn_def)
  have st: "commit_block (emit ran_events ?W) (Suc 0) = ERROR \<or>
            commit_block (emit ran_events ?W) (Suc 0) = NOT_LOCKED"
    by (simp add: emit_def example_world_def)
  have msg: "''OVSDB Error: constraint violation'' = ''OVSDB Error: '' @
                (if commit_block (emit ran_events ?W) (Suc 0) = NOT_LOCKED then not_locked_message
                 else get_error (emit ran_events ?W) (Suc 0))"
    by (simp add: emit_def example_world_def)
  have c: "commit_block (emit ran_events ?W) (Suc 0) = ERROR"
    by (simp add: emit_def example_world_def)
  show ?thesis
    using live run c do_commit_error_status [OF live w0 run st msg, of 0]
    by (simp add: example_txn_def emit_emit)
qed




section \<open>Replacing Commands: properties\<close>




lemma is_command_upd:
  "store h obj = OList es \<Longrightarrow> is_command (h\<lparr>store := (store h)(obj := OList es')\<rparr>) = is_command h"
  "store h obj = ODict its \<Longrightarrow> is_command (h\<lparr>store := (store h)(obj := ODict its')\<rparr>) = is_command h"
  by (auto simp: is_command_def fun_eq_iff)










end
